theory Spec2Isabelle
  imports Complex_Main "HOL-Library.FSet" "HOL-Library.Multiset"
begin

section \<open>Data model\<close>

text \<open>
  A parsed row is a Python dict from column name to string value. Strings are lists of
  characters; a character stands for one code point below 256. A row is a partial map.
\<close>

type_synonym row = "string \<rightharpoonup> string"

text \<open>\<open>d.get(key, default)\<close> with a string default.\<close>

definition get_str :: "row \<Rightarrow> string \<Rightarrow> string \<Rightarrow> string" where
  "get_str d key dflt = (case d key of None \<Rightarrow> dflt | Some v \<Rightarrow> v)"

text \<open>
  A Python float is an IEEE 754 binary64 number: a finite value, an infinity or a NaN.
  A finite value is kept as the real number it denotes (the two signed zeros are one
  value, as they are for \<open>==\<close>). \<open>round64\<close> rounds a real to the nearest
  binary64 value, ties to the even significand: the result is a multiple of the quantum
  \<open>2 ^ (e - 52)\<close> of the binade \<open>2 ^ e \<le> |x| < 2 ^ (e + 1)\<close>, with \<open>e\<close> not below
  \<open>-1022\<close> (subnormal numbers share the quantum \<open>2 ^ -1074\<close>), and a result of
  magnitude \<open>2 ^ 1024\<close> or more is an infinity. Float addition is the rounded exact sum;
  it is the \<open>+\<close> of the type, and \<open>0\<close> is the float zero.
\<close>

datatype double = Finite real | PosInf | NegInf | NaN

definition round_half_even :: "real \<Rightarrow> int" where
  "round_half_even x =
     (let f = \<lfloor>x\<rfloor>; d = x - of_int f in
      if d < 1 / 2 then f else if 1 / 2 < d then f + 1 else if even f then f else f + 1)"

definition quantize :: "real \<Rightarrow> int \<Rightarrow> real" where
  "quantize x e = of_int (round_half_even (x / 2 powi (e - 52))) * 2 powi (e - 52)"

definition round64 :: "real \<Rightarrow> double" where
  "round64 x =
     (if x = 0 then Finite 0
      else let y = quantize \<bar>x\<bar> (max \<lfloor>log 2 \<bar>x\<bar>\<rfloor> (- 1022))
           in if 2 ^ 1024 \<le> y then (if 0 < x then PosInf else NegInf)
              else Finite (sgn x * y))"

fun fadd :: "double \<Rightarrow> double \<Rightarrow> double" where
  "fadd NaN b = NaN"
| "fadd a NaN = NaN"
| "fadd PosInf NegInf = NaN"
| "fadd NegInf PosInf = NaN"
| "fadd PosInf b = PosInf"
| "fadd a PosInf = PosInf"
| "fadd NegInf b = NegInf"
| "fadd a NegInf = NegInf"
| "fadd (Finite a) (Finite b) = round64 (a + b)"

instantiation double :: "{zero, plus}"
begin

definition zero_double :: double where
  "zero_double = Finite 0"

definition plus_double :: "double \<Rightarrow> double \<Rightarrow> double" where
  "plus_double a b = fadd a b"

instance ..

end

text \<open>
  The builtin \<open>sum\<close> on floats: it starts from 0 and adds the items from left to
  right.
\<close>

definition py_sum :: "double list \<Rightarrow> double" where
  "py_sum xs = foldl (+) 0 xs"

text \<open>
  The values that reach \<open>safe_float\<close>: a string taken from a row, the integer literal
  \<open>0\<close> passed as the default of \<open>get\<close>, or \<open>None\<close>.
\<close>

datatype pyval = PyNone | PyZero | PyStr string

text \<open>\<open>d.get(key, 0)\<close>: the value of the key, the integer 0 when the key is absent.\<close>

definition get_or_zero :: "row \<Rightarrow> string \<Rightarrow> pyval" where
  "get_or_zero d key = (case d key of None \<Rightarrow> PyZero | Some v \<Rightarrow> PyStr v)"

text \<open>
  \<open>safe_float(value, default=0.0)\<close>. The builtin \<open>float\<close> on strings is not part of the
  repository: it is the parameter \<open>pyfloat\<close>, where \<open>None\<close> stands for the \<open>ValueError\<close>
  that the \<open>except\<close> clause turns into the default \<open>0.0\<close>. \<open>float(0)\<close> is
  \<open>0.0\<close>.
\<close>

definition safe_float :: "(string \<Rightarrow> double option) \<Rightarrow> pyval \<Rightarrow> double" where
  "safe_float pyfloat v =
     (case v of
        PyNone \<Rightarrow> 0
      | PyZero \<Rightarrow> 0
      | PyStr s \<Rightarrow> if s = [] then 0 else (case pyfloat s of None \<Rightarrow> 0 | Some x \<Rightarrow> x))"

section \<open>Redundant logic detector\<close>

text \<open>
  The adjacency structure: \<open>graph[pred_id]\<close> is the list of
  \<open>(succ_id, rel_type, lag)\<close> in insertion order. A queue entry of the search is
  \<open>(current_node, cumulative_lag, path)\<close>.
\<close>

type_synonym edge = "string \<times> string \<times> double"
type_synonym graph = "string \<rightharpoonup> edge list"
type_synonym entry = "string \<times> double \<times> string list"

text \<open>\<open>graph.get(current, [])\<close>.\<close>

definition neighbors :: "graph \<Rightarrow> string \<Rightarrow> edge list" where
  "neighbors g current = (case g current of None \<Rightarrow> [] | Some es \<Rightarrow> es)"

text \<open>
  The \<open>for\<close> loop over the neighbours of \<open>current\<close>: the entries appended to the queue, in
  order.
\<close>

definition expand :: "graph \<Rightarrow> entry \<Rightarrow> entry list" where
  "expand g ent =
     (case ent of (current, cumulative_lag, path) \<Rightarrow>
        map (\<lambda>(neighbor, rel_type, lag). (neighbor, cumulative_lag + lag, path @ [current]))
          (filter (\<lambda>(neighbor, rel_type, lag). neighbor \<notin> set path) (neighbors g current)))"

text \<open>
  The \<open>while\<close> loop of \<open>has_alternate_path\<close>, on the queue and the visited set. The
  constants are \<open>max_depth = 10\<close> and the bound 1000 of the loop condition.
\<close>

function search_loop :: "graph \<Rightarrow> string \<Rightarrow> entry list \<Rightarrow> string fset \<Rightarrow> bool" where
  "search_loop g end [] visited = False"
| "search_loop g end ((current, cumulative_lag, path) # queue) visited =
     (if \<not> fcard visited < 1000 then False
      else if length path > 10 then search_loop g end queue visited
      else if current = end \<and> length path > 1 then True
      else if current |\<in>| visited then search_loop g end queue visited
      else search_loop g end (queue @ expand g (current, cumulative_lag, path))
             (finsert current visited))"
  by pat_completeness auto
termination
  by (relation "measures [\<lambda>(g, e, q, v). 1000 - fcard v, \<lambda>(g, e, q, v). length q]")
     (auto simp: fcard_finsert_disjoint)

definition has_alternate_path :: "graph \<Rightarrow> string \<Rightarrow> string \<Rightarrow> string \<times> double \<Rightarrow> bool" where
  "has_alternate_path g start end direct_rel = search_loop g end [(start, 0, [])] {||}"

text \<open>
  The same loop with three ghost outputs that the source does not compute: the number of
  \<open>popleft\<close> calls, the nodes whose neighbours were explored (in order), and the final
  visited set. The control flow is that of \<open>search_loop\<close>, branch for branch.
\<close>

record search_log =
  found :: bool
  dequeued :: nat
  explored :: "string list"
  seen :: "string fset"

function search_trace ::
  "graph \<Rightarrow> string \<Rightarrow> entry list \<Rightarrow> string fset \<Rightarrow> nat \<Rightarrow> string list \<Rightarrow> search_log" where
  "search_trace g end [] visited k xs =
     \<lparr>found = False, dequeued = k, explored = xs, seen = visited\<rparr>"
| "search_trace g end ((current, cumulative_lag, path) # queue) visited k xs =
     (if \<not> fcard visited < 1000
      then \<lparr>found = False, dequeued = k, explored = xs, seen = visited\<rparr>
      else if length path > 10 then search_trace g end queue visited (Suc k) xs
      else if current = end \<and> length path > 1
      then \<lparr>found = True, dequeued = Suc k, explored = xs, seen = visited\<rparr>
      else if current |\<in>| visited then search_trace g end queue visited (Suc k) xs
      else search_trace g end (queue @ expand g (current, cumulative_lag, path))
             (finsert current visited) (Suc k) (xs @ [current]))"
  by pat_completeness auto
termination
  by (relation "measures [\<lambda>(g, e, q, v, k, xs). 1000 - fcard v, \<lambda>(g, e, q, v, k, xs). length q]")
     (auto simp: fcard_finsert_disjoint)

text \<open>
  Graph construction, the first loop of \<open>analyze_redundant_logic\<close>. \<open>graph\<close> is a
  \<open>defaultdict(list)\<close>: \<open>graph[pred_id].append(e)\<close> starts from the empty list for a new
  key. The dictionary \<open>rel_map\<close> filled by the same loop is never read and is left out.
\<close>

definition add_edge :: "graph \<Rightarrow> string \<Rightarrow> edge \<Rightarrow> graph" where
  "add_edge g pred_id e = g(pred_id \<mapsto> neighbors g pred_id @ [e])"

definition graph_step :: "(string \<Rightarrow> double option) \<Rightarrow> row \<Rightarrow> graph \<Rightarrow> graph" where
  "graph_step pyfloat rel g =
     (let pred_id = get_str rel ''pred_task_id'' [];
          succ_id = get_str rel ''succ_task_id'' [];
          rel_type = get_str rel ''pred_type'' ''PR_FS'';
          lag = safe_float pyfloat (get_or_zero rel ''lag_hr_cnt'')
      in if pred_id \<noteq> [] \<and> succ_id \<noteq> [] then add_edge g pred_id (succ_id, rel_type, lag)
         else g)"

definition build_graph :: "(string \<Rightarrow> double option) \<Rightarrow> row list \<Rightarrow> graph" where
  "build_graph pyfloat relationships = fold (graph_step pyfloat) relationships Map.empty"

text \<open>
  \<open>next((act.get('task_code', tid) for act in activities if act.get('task_id', '') == tid),
  tid)\<close>: the code of the first activity with that id, the id itself when there is none.
\<close>

definition activity_code :: "row list \<Rightarrow> string \<Rightarrow> string" where
  "activity_code activities tid =
     (case find (\<lambda>act. get_str act ''task_id'' [] = tid) activities of
        None \<Rightarrow> tid
      | Some act \<Rightarrow> get_str act ''task_code'' tid)"

record redundant_rel =
  predecessor_id :: string
  successor_id :: string
  predecessor_code :: string
  successor_code :: string
  relationship_type :: string
  lag_hours :: double

record redundancy_report =
  redundant_relationships :: "redundant_rel list"
  total_relationships_checked :: nat
  redundant_count :: nat

text \<open>
  One iteration of the second loop, on the pair
  \<open>(redundant_relationships, total_checked)\<close>.
\<close>

definition check_step ::
  "(string \<Rightarrow> double option) \<Rightarrow> graph \<Rightarrow> row list \<Rightarrow> row \<Rightarrow> redundant_rel list \<times> nat
     \<Rightarrow> redundant_rel list \<times> nat" where
  "check_step pyfloat g activities rel st =
     (case st of (redundant, total_checked) \<Rightarrow>
        let total_checked = total_checked + 1;
            pred_id = get_str rel ''pred_task_id'' [];
            succ_id = get_str rel ''succ_task_id'' [];
            rel_type = get_str rel ''pred_type'' ''PR_FS'';
            direct_lag = safe_float pyfloat (get_or_zero rel ''lag_hr_cnt'')
        in if pred_id \<noteq> [] \<and> succ_id \<noteq> []
           then if has_alternate_path g pred_id succ_id (rel_type, direct_lag)
                then (redundant @
                        [\<lparr>predecessor_id = pred_id, successor_id = succ_id,
                          predecessor_code = activity_code activities pred_id,
                          successor_code = activity_code activities succ_id,
                          relationship_type = rel_type, lag_hours = direct_lag\<rparr>],
                      total_checked)
                else (redundant, total_checked)
           else (redundant, total_checked))"

text \<open>
  \<open>analyze_redundant_logic\<close>. Nothing in the \<open>try\<close> block raises on rows of strings
  (\<open>safe_float\<close> catches what \<open>float\<close> raises), so the \<open>except\<close> branch is not reached.
\<close>

definition analyze_redundant_logic ::
  "(string \<Rightarrow> double option) \<Rightarrow> row list \<Rightarrow> row list \<Rightarrow> redundancy_report" where
  "analyze_redundant_logic pyfloat activities relationships =
     (let g = build_graph pyfloat relationships;
          st = fold (check_step pyfloat g activities) relationships ([], 0)
      in \<lparr>redundant_relationships = fst st,
          total_relationships_checked = snd st,
          redundant_count = length (fst st)\<rparr>)"

text \<open>A relationship row with both endpoints, a type tag and a lag field.\<close>

definition rel_row :: "string \<Rightarrow> string \<Rightarrow> string \<Rightarrow> string \<Rightarrow> row" where
  "rel_row p s t l =
     [''pred_task_id'' \<mapsto> p, ''succ_task_id'' \<mapsto> s, ''pred_type'' \<mapsto> t, ''lag_hr_cnt'' \<mapsto> l]"

text \<open>
  Walks of the relationship graph: \<open>is_edge g u v\<close> when some relationship of any type and
  lag leads from \<open>u\<close> to \<open>v\<close>; \<open>walk g xs\<close> when consecutive nodes of \<open>xs\<close> are joined
  by edges. A queue entry is well formed for a search from \<open>s\<close> when its path followed by
  its node is a walk that starts at \<open>s\<close>.
\<close>

definition is_edge :: "graph \<Rightarrow> string \<Rightarrow> string \<Rightarrow> bool" where
  "is_edge g u v = (v \<in> fst ` set (neighbors g u))"

fun walk :: "graph \<Rightarrow> string list \<Rightarrow> bool" where
  "walk g [] = True"
| "walk g [u] = True"
| "walk g (u # v # rest) = (is_edge g u v \<and> walk g (v # rest))"

definition entry_ok :: "graph \<Rightarrow> string \<Rightarrow> entry \<Rightarrow> bool" where
  "entry_ok g s ent = (case ent of (c, l, p) \<Rightarrow> walk g (p @ [c]) \<and> hd (p @ [c]) = s)"

text \<open>
  Concrete inputs. \<open>float_fragment\<close> is the builtin \<open>float\<close> on the six numerals that
  occur in them, each an integer that binary64 holds exactly (the last one is
  \<open>2 ^ 53\<close>); no other string is passed to it below.
\<close>

definition float_fragment :: "string \<Rightarrow> double option" where
  "float_fragment =
     [''0'' \<mapsto> Finite 0, ''1'' \<mapsto> Finite 1, ''25'' \<mapsto> Finite 25, ''50'' \<mapsto> Finite 50,
      ''100'' \<mapsto> Finite 100, ''9007199254740992'' \<mapsto> Finite 9007199254740992]"

definition chain_with_shortcut :: "row list" where
  "chain_with_shortcut =
     [rel_row ''A'' ''B'' ''PR_FS'' ''0'', rel_row ''B'' ''C'' ''PR_FS'' ''0'',
      rel_row ''A'' ''C'' ''PR_FS'' ''0'']"

section \<open>Tabular export parser\<close>

text \<open>
  The string methods used by \<open>parse_xer_simplified\<close>, on code points below 256:
  \<open>str.splitlines\<close> (the line boundaries LF, VT, FF, CR, CR LF, FS, GS, RS, NEL; no empty
  last line after a final boundary), \<open>str.strip\<close> (the characters for which
  \<open>str.isspace\<close> holds), \<open>str.split('\t')\<close> and \<open>str.startswith\<close>.
\<close>

definition is_linebreak :: "char \<Rightarrow> bool" where
  "is_linebreak c =
     (c \<in> set [CHR 0x0A, CHR 0x0B, CHR 0x0C, CHR 0x0D, CHR 0x1C, CHR 0x1D, CHR 0x1E, CHR 0x85])"

definition is_space :: "char \<Rightarrow> bool" where
  "is_space c =
     (c \<in> set [CHR 0x09, CHR 0x0A, CHR 0x0B, CHR 0x0C, CHR 0x0D, CHR 0x1C, CHR 0x1D, CHR 0x1E,
               CHR 0x1F, CHR 0x20, CHR 0x85, CHR 0xA0])"

fun splitlines_from :: "string \<Rightarrow> string \<Rightarrow> string list" where
  "splitlines_from acc [] = (if acc = [] then [] else [acc])"
| "splitlines_from acc [c] = (if is_linebreak c then [acc] else [acc @ [c]])"
| "splitlines_from acc (c # d # rest) =
     (if c = CHR 0x0D \<and> d = CHR 0x0A then acc # splitlines_from [] rest
      else if is_linebreak c then acc # splitlines_from [] (d # rest)
      else splitlines_from (acc @ [c]) (d # rest))"

definition splitlines :: "string \<Rightarrow> string list" where
  "splitlines content = splitlines_from [] content"

definition strip :: "string \<Rightarrow> string" where
  "strip s = rev (dropWhile is_space (rev (dropWhile is_space s)))"

fun split_from :: "char \<Rightarrow> string \<Rightarrow> string \<Rightarrow> string list" where
  "split_from sep acc [] = [acc]"
| "split_from sep acc (c # rest) =
     (if c = sep then acc # split_from sep [] rest else split_from sep (acc @ [c]) rest)"

definition split_tab :: "string \<Rightarrow> string list" where
  "split_tab line = split_from (CHR 0x09) [] line"

definition startswith :: "string \<Rightarrow> string \<Rightarrow> bool" where
  "startswith s p = (take (length p) s = p)"

datatype py_error = IndexError | KeyError

text \<open>
  The six lists filled by the parser, returned under the keys \<open>activities\<close>,
  \<open>relationships\<close>, \<open>assignments\<close>, \<open>resources\<close>, \<open>roles\<close>, \<open>role_rates\<close> (the constant
  entry \<open>filename\<close> is not modelled), and the loop state: the lists, \<open>current\<close> and
  \<open>cols\<close>.
\<close>

record xer_data =
  tasks :: "row list"
  preds :: "row list"
  assigns :: "row list"
  rsrcs :: "row list"
  roles :: "row list"
  role_rates :: "row list"

record parser_state =
  tables :: xer_data
  current :: "string option"
  cols :: "string list"

text \<open>
  \<open>{cols[i]: values[i] if i < len(values) else '' for i in range(len(cols))}\<close>: the keys
  are inserted in the order of \<open>cols\<close>, a later equal key overwrites an earlier one.
\<close>

definition row_fill :: "string list \<Rightarrow> string list \<Rightarrow> nat \<Rightarrow> row \<Rightarrow> row" where
  "row_fill cs values i r = r(cs ! i \<mapsto> (if i < length values then values ! i else []))"

definition make_row :: "string list \<Rightarrow> string list \<Rightarrow> row" where
  "make_row cs values = fold (row_fill cs values) [0..<length cs] Map.empty"

definition append_row :: "string \<Rightarrow> row \<Rightarrow> xer_data \<Rightarrow> xer_data" where
  "append_row cur r d =
     (if cur = ''TASK'' then d\<lparr>tasks := tasks d @ [r]\<rparr>
      else if cur = ''TASKPRED'' then d\<lparr>preds := preds d @ [r]\<rparr>
      else if cur = ''TASKRSRC'' then d\<lparr>assigns := assigns d @ [r]\<rparr>
      else if cur = ''RSRC'' then d\<lparr>rsrcs := rsrcs d @ [r]\<rparr>
      else if cur = ''ROLES'' then d\<lparr>roles := roles d @ [r]\<rparr>
      else if cur = ''ROLERATE'' then d\<lparr>role_rates := role_rates d @ [r]\<rparr>
      else d)"

text \<open>
  One iteration of the loop over the lines. \<open>line.split('\t')[1]\<close> raises
  \<open>IndexError\<close> when the line has no tab; the slices \<open>[1:]\<close> never raise. \<open>current\<close>
  is truthy when it is a non-empty string.
\<close>

definition parse_line :: "string \<Rightarrow> parser_state \<Rightarrow> py_error + parser_state" where
  "parse_line raw st =
     (let line = strip raw in
      if line = [] then Inr st
      else if startswith line ''%T'' then
        (case split_tab line of
           f0 # f1 # fs \<Rightarrow> Inr (st\<lparr>current := Some f1, cols := []\<rparr>)
         | _ \<Rightarrow> Inl IndexError)
      else if startswith line ''%F'' then Inr (st\<lparr>cols := tl (split_tab line)\<rparr>)
      else if startswith line ''%R'' \<and> current st \<noteq> None \<and> current st \<noteq> Some [] \<and> cols st \<noteq> []
      then let values = tl (split_tab line);
               r = make_row (cols st) values
           in Inr (st\<lparr>tables := append_row (the (current st)) r (tables st)\<rparr>)
      else Inr st)"

fun parse_lines :: "string list \<Rightarrow> parser_state \<Rightarrow> py_error + parser_state" where
  "parse_lines [] st = Inr st"
| "parse_lines (raw # rest) st =
     (case parse_line raw st of Inl e \<Rightarrow> Inl e | Inr st' \<Rightarrow> parse_lines rest st')"

definition initial_state :: parser_state where
  "initial_state =
     \<lparr>tables = \<lparr>tasks = [], preds = [], assigns = [], rsrcs = [], roles = [], role_rates = []\<rparr>,
      current = None, cols = []\<rparr>"

definition parse_xer_simplified :: "string \<Rightarrow> py_error + xer_data" where
  "parse_xer_simplified content =
     (case parse_lines (splitlines content) initial_state of
        Inl e \<Rightarrow> Inl e
      | Inr st \<Rightarrow> Inr (tables st))"

section \<open>Metrics\<close>

text \<open>
  The two constant tables, as association lists: \<open>.get(k)\<close> is \<open>map_of\<close>, \<open>.values()\<close> is
  the list of second components.
\<close>

definition XER_ACTIVITY_MAP :: "(string \<times> string) list" where
  "XER_ACTIVITY_MAP =
     [(''TT_Task'', ''Task Dependent''), (''TT_Rsrc'', ''Resource Dependent''),
      (''TT_LOE'', ''Level of Effort''), (''TT_Mile'', ''Start Milestone''),
      (''TT_FinMile'', ''Finish Milestone''), (''TT_WBS'', ''WBS Summary'')]"

definition XER_REL_MAP :: "(string \<times> string) list" where
  "XER_REL_MAP =
     [(''PR_FS'', ''Finish-to-Start (FS)''), (''PR_FF'', ''Finish-to-Finish (FF)''),
      (''PR_SS'', ''Start-to-Start (SS)''), (''PR_SF'', ''Start-to-Finish (SF)'')]"

type_synonym histogram = "string \<rightharpoonup> nat"

text \<open>\<open>{v: 0 for v in table.values()}\<close>.\<close>

definition zero_counts :: "(string \<times> string) list \<Rightarrow> histogram" where
  "zero_counts table = fold (\<lambda>v m. m(v \<mapsto> 0)) (map snd table) Map.empty"

text \<open>
  The counting loops of \<open>analyze_project_data\<close> for activities and relationships have
  the same shape: look the tag up, and when the name is truthy add one under the name.
  The histogram is a plain dict, so \<open>counts[name] += 1\<close> raises \<open>KeyError\<close> on a missing
  key.
\<close>

fun count_by_type ::
  "(string \<times> string) list \<Rightarrow> (row \<Rightarrow> string) \<Rightarrow> row list \<Rightarrow> histogram \<Rightarrow> py_error + histogram" where
  "count_by_type table tag [] counts = Inr counts"
| "count_by_type table tag (r # rs) counts =
     (case map_of table (tag r) of
        None \<Rightarrow> count_by_type table tag rs counts
      | Some name \<Rightarrow>
          if name = [] then count_by_type table tag rs counts
          else (case counts name of
                  None \<Rightarrow> Inl KeyError
                | Some c \<Rightarrow> count_by_type table tag rs (counts(name \<mapsto> c + 1))))"

definition activity_counts :: "row list \<Rightarrow> py_error + histogram" where
  "activity_counts acts =
     count_by_type XER_ACTIVITY_MAP (\<lambda>activity. get_str activity ''task_type'' []) acts
       (zero_counts XER_ACTIVITY_MAP)"

definition relationship_counts :: "row list \<Rightarrow> py_error + histogram" where
  "relationship_counts rels =
     count_by_type XER_REL_MAP (\<lambda>rel. get_str rel ''pred_type'' ''PR_FS'') rels
       (zero_counts XER_REL_MAP)"

text \<open>\<open>{r.get('rsrc_id', ''): r for r in resources}\<close>: a later row overwrites an earlier one.\<close>

definition resource_lookup :: "row list \<Rightarrow> (string \<rightharpoonup> row)" where
  "resource_lookup rs = fold (\<lambda>r m. m(get_str r ''rsrc_id'' [] \<mapsto> r)) rs Map.empty"

text \<open>
  The class of an assignment in the counting loop:
  \<open>resource_lookup.get(rsrc_id, {}).get('rsrc_type', '')\<close> compared with the two tags.
\<close>

definition lookup_resource :: "(string \<rightharpoonup> row) \<Rightarrow> row \<Rightarrow> row" where
  "lookup_resource lookup a =
     (case lookup (get_str a ''rsrc_id'' []) of None \<Rightarrow> Map.empty | Some r \<Rightarrow> r)"

definition resource_class :: "(string \<rightharpoonup> row) \<Rightarrow> row \<Rightarrow> string" where
  "resource_class lookup a =
     (let rsrc_type = get_str (lookup_resource lookup a) ''rsrc_type'' [] in
      if rsrc_type = ''RT_Labor'' then ''Labor''
      else if rsrc_type = ''RT_Mat'' then ''Material''
      else ''Non-Labor'')"

text \<open>\<open>resource_counts\<close> is a \<open>defaultdict(int)\<close>: a missing key starts at 0.\<close>

definition bump :: "histogram \<Rightarrow> string \<Rightarrow> histogram" where
  "bump counts k = counts(k \<mapsto> (case counts k of None \<Rightarrow> 0 | Some c \<Rightarrow> c) + 1)"

definition resource_counts :: "(string \<rightharpoonup> row) \<Rightarrow> row list \<Rightarrow> histogram" where
  "resource_counts lookup asg = fold (\<lambda>a counts. bump counts (resource_class lookup a)) asg Map.empty"

text \<open>
  The three cost sums filter on \<open>resource_lookup.get(id, {}).get('rsrc_type')\<close>, which is
  \<open>None\<close> for a missing key, and add \<open>safe_float(a.get('target_cost', 0))\<close> with the
  builtin \<open>sum\<close>, in table order.
\<close>

definition rsrc_type_opt :: "(string \<rightharpoonup> row) \<Rightarrow> row \<Rightarrow> string option" where
  "rsrc_type_opt lookup a = lookup_resource lookup a ''rsrc_type''"

definition cost_of :: "(string \<Rightarrow> double option) \<Rightarrow> row \<Rightarrow> double" where
  "cost_of pyfloat a = safe_float pyfloat (get_or_zero a ''target_cost'')"

definition labor_cost :: "(string \<Rightarrow> double option) \<Rightarrow> (string \<rightharpoonup> row) \<Rightarrow> row list \<Rightarrow> double" where
  "labor_cost pyfloat lookup asg =
     py_sum (map (cost_of pyfloat)
       (filter (\<lambda>a. rsrc_type_opt lookup a = Some ''RT_Labor'') asg))"

definition nonlabor_cost :: "(string \<Rightarrow> double option) \<Rightarrow> (string \<rightharpoonup> row) \<Rightarrow> row list \<Rightarrow> double" where
  "nonlabor_cost pyfloat lookup asg =
     py_sum (map (cost_of pyfloat)
       (filter (\<lambda>a. rsrc_type_opt lookup a \<notin> set [Some ''RT_Labor'', Some ''RT_Mat'']) asg))"

definition material_cost :: "(string \<Rightarrow> double option) \<Rightarrow> (string \<rightharpoonup> row) \<Rightarrow> row list \<Rightarrow> double" where
  "material_cost pyfloat lookup asg =
     py_sum (map (cost_of pyfloat)
       (filter (\<lambda>a. rsrc_type_opt lookup a = Some ''RT_Mat'') asg))"

record costs =
  labor :: double
  nonlabor :: double
  material :: double

record project_metrics =
  m_activity_counts :: histogram
  m_relationship_counts :: histogram
  m_resource_counts :: histogram
  total_assignments :: nat
  total_resources :: nat
  m_costs :: costs
  redundant_logic :: redundancy_report

definition analyze_project_data ::
  "(string \<Rightarrow> double option) \<Rightarrow> xer_data \<Rightarrow> py_error + project_metrics" where
  "analyze_project_data pyfloat d =
     (case activity_counts (tasks d) of
        Inl e \<Rightarrow> Inl e
      | Inr ac \<Rightarrow>
         (case relationship_counts (preds d) of
            Inl e \<Rightarrow> Inl e
          | Inr rc \<Rightarrow>
             (let lookup = resource_lookup (rsrcs d) in
              Inr \<lparr>m_activity_counts = ac,
                   m_relationship_counts = rc,
                   m_resource_counts = resource_counts lookup (assigns d),
                   total_assignments = length (assigns d),
                   total_resources = length (rsrcs d),
                   m_costs = \<lparr>labor = labor_cost pyfloat lookup (assigns d),
                              nonlabor = nonlabor_cost pyfloat lookup (assigns d),
                              material = material_cost pyfloat lookup (assigns d)\<rparr>,
                   redundant_logic = analyze_redundant_logic pyfloat (tasks d) (preds d)\<rparr>)))"

text \<open>The sum of a histogram over a list of keys, a missing key counting as 0.\<close>

definition hist_total :: "string list \<Rightarrow> histogram \<Rightarrow> nat" where
  "hist_total names h = sum_list (map (\<lambda>n. case h n of None \<Rightarrow> 0 | Some c \<Rightarrow> c) names)"

text \<open>Concrete export text: a tab, a line feed, and a small export with one table.\<close>

definition tab :: string where
  "tab = [CHR 0x09]"

definition nl :: string where
  "nl = [CHR 0x0A]"

definition sample_export :: string where
  "sample_export =
     ''%T'' @ tab @ ''TASK'' @ nl @
     ''%F'' @ tab @ ''task_id'' @ tab @ ''task_type'' @ nl @
     ''%R'' @ tab @ ''1'' @ tab @ ''TT_Task'' @ nl @
     ''%R'' @ tab @ ''2'' @ tab @ ''TT_Foo'' @ tab @ ''extra'' @ nl @
     ''%R'' @ tab @ ''3'' @ nl"

definition short_row_line :: string where
  "short_row_line = ''%R'' @ tab @ ''7''"

definition short_row_state :: parser_state where
  "short_row_state =
     initial_state\<lparr>current := Some ''TASK'', cols := [''task_id'', ''task_type'', ''task_code'']\<rparr>"

text \<open>
  The keys of the two histograms (\<open>.values()\<close> of the tables), and the rows that take
  part in the counts and in the graph.
\<close>

definition activity_names :: "string list" where
  "activity_names = map snd XER_ACTIVITY_MAP"

definition relationship_names :: "string list" where
  "relationship_names = map snd XER_REL_MAP"

definition mapped :: "(string \<times> string) list \<Rightarrow> (row \<Rightarrow> string) \<Rightarrow> row \<Rightarrow> bool" where
  "mapped table tag r = (case map_of table (tag r) of None \<Rightarrow> False | Some name \<Rightarrow> name \<noteq> [])"

definition has_endpoints :: "row \<Rightarrow> bool" where
  "has_endpoints rel =
     (get_str rel ''pred_task_id'' [] \<noteq> [] \<and> get_str rel ''succ_task_id'' [] \<noteq> [])"

text \<open>
  Concrete tables: two resources and three assignments, the last one for a resource id
  with no record; three assignments of costs 1, 1 and \<open>2 ^ 53\<close> to the same resources;
  two resource records and two activity records sharing one id; a
  relationship row without successor id.
\<close>

definition cost_resources :: "row list" where
  "cost_resources =
     [[''rsrc_id'' \<mapsto> ''R1'', ''rsrc_type'' \<mapsto> ''RT_Labor''],
      [''rsrc_id'' \<mapsto> ''R2'', ''rsrc_type'' \<mapsto> ''RT_Mat'']]"

definition unknown_assignment :: row where
  "unknown_assignment = [''rsrc_id'' \<mapsto> ''UNKNOWN'', ''target_cost'' \<mapsto> ''25'']"

definition cost_assignments :: "row list" where
  "cost_assignments =
     [[''rsrc_id'' \<mapsto> ''R1'', ''target_cost'' \<mapsto> ''100''],
      [''rsrc_id'' \<mapsto> ''R2'', ''target_cost'' \<mapsto> ''50''],
      unknown_assignment]"

definition cost_data :: xer_data where
  "cost_data =
     \<lparr>tasks = [], preds = [], assigns = cost_assignments, rsrcs = cost_resources,
      roles = [], role_rates = []\<rparr>"

definition rounding_assignments :: "row list" where
  "rounding_assignments =
     [[''rsrc_id'' \<mapsto> ''R2'', ''target_cost'' \<mapsto> ''1''],
      [''rsrc_id'' \<mapsto> ''UNKNOWN'', ''target_cost'' \<mapsto> ''1''],
      [''rsrc_id'' \<mapsto> ''R1'', ''target_cost'' \<mapsto> ''9007199254740992'']]"

definition rounding_data :: xer_data where
  "rounding_data =
     \<lparr>tasks = [], preds = [], assigns = rounding_assignments, rsrcs = cost_resources,
      roles = [], role_rates = []\<rparr>"

definition first_r1 :: row where
  "first_r1 = [''rsrc_id'' \<mapsto> ''R1'', ''rsrc_type'' \<mapsto> ''RT_Labor'']"

definition second_r1 :: row where
  "second_r1 = [''rsrc_id'' \<mapsto> ''R1'', ''rsrc_type'' \<mapsto> ''RT_Mat'']"

definition first_t1 :: row where
  "first_t1 = [''task_id'' \<mapsto> ''T1'', ''task_code'' \<mapsto> ''A1000'']"

definition second_t1 :: row where
  "second_t1 = [''task_id'' \<mapsto> ''T1'', ''task_code'' \<mapsto> ''B2000'']"

definition dangling_rel :: row where
  "dangling_rel = [''pred_task_id'' \<mapsto> ''A'', ''pred_type'' \<mapsto> ''PR_FS'']"

text \<open>
  Concrete graphs for the search: the cycle A\<rightarrow>B\<rightarrow>A; 1001 copies of the relationship
  A\<rightarrow>B; a set of 1000 node names; and a graph in which X is reached first through the
  successor E (S\<rightarrow>E\<rightarrow>X) and later through the branch S\<rightarrow>Z\<rightarrow>W\<rightarrow>X, with X\<rightarrow>Y\<rightarrow>E.
\<close>

definition two_cycle :: "row list" where
  "two_cycle = [rel_row ''A'' ''B'' ''PR_FS'' ''0'', rel_row ''B'' ''A'' ''PR_FS'' ''0'']"

definition fan_rels :: "row list" where
  "fan_rels = replicate 1001 (rel_row ''A'' ''B'' ''PR_FS'' ''0'')"

definition thousand_nodes :: "string fset" where
  "thousand_nodes = (\<lambda>n. replicate n (CHR ''x'')) |`| fset_of_list [0..<1000]"

definition detour_rels :: "row list" where
  "detour_rels =
     [rel_row ''S'' ''E'' ''PR_FS'' ''0'', rel_row ''E'' ''X'' ''PR_FS'' ''0'',
      rel_row ''X'' ''Y'' ''PR_FS'' ''0'', rel_row ''Y'' ''E'' ''PR_FS'' ''0'',
      rel_row ''S'' ''Z'' ''PR_FS'' ''0'', rel_row ''Z'' ''W'' ''PR_FS'' ''0'',
      rel_row ''W'' ''X'' ''PR_FS'' ''0'']"

section \<open>Evaluating float addition\<close>

lemma floor_log2_eqI:
  fixes x :: real
  assumes "2 ^ k \<le> x" and "x < 2 ^ Suc k"
  shows "\<lfloor>log 2 x\<rfloor> = int k"
proof -
  have "(0::real) < 2 ^ k" by simp
  with assms(1) have pos: "0 < x" by linarith
  have "2 powr (real_of_int (int k)) \<le> x \<and> x < 2 powr (real_of_int (int k + 1))"
    using assms by (simp add: powr_realpow powr_add)
  with pos show ?thesis by (simp add: floor_log_eq_powr_iff)
qed

lemma round_half_even_int: "round_half_even (of_int n) = n"
  by (simp add: round_half_even_def)

text \<open>
  A positive real in the binade of \<open>2 ^ k\<close> rounds to its quantized value when that is
  below the overflow threshold.
\<close>

lemma round64_normal:
  assumes "2 ^ k \<le> x" and "x < 2 ^ Suc k" and "quantize x (int k) = y" and "y < 2 ^ 1024"
  shows "round64 x = Finite y"
proof -
  have "(0::real) < 2 ^ k" by simp
  with assms(1) have pos: "0 < x" by linarith
  then have ax: "\<bar>x\<bar> = x" by simp
  from assms(1,2) have e: "\<lfloor>log 2 x\<rfloor> = int k" by (rule floor_log2_eqI)
  have m: "max (int k) (- 1022) = int k" by simp
  from pos have nz: "x \<noteq> 0" by simp
  from pos have sg: "sgn x = 1" by simp
  from assms(4) have lt: "\<not> 2 ^ 1024 \<le> y" by simp
  show ?thesis
    unfolding round64_def Let_def ax e m sg assms(3) using nz lt by simp
qed

lemma below_overflow: "(x::real) < 2 ^ 60 \<Longrightarrow> x < 2 ^ 1024"
proof -
  have "(2::real) ^ 60 \<le> 2 ^ 1024" by (rule power_increasing) simp_all
  then show "x < 2 ^ 60 \<Longrightarrow> x < 2 ^ 1024" by linarith
qed

lemma quantize_exact: "x = of_int m * 2 powi (e - 52) \<Longrightarrow> quantize x e = x"
  by (simp add: quantize_def round_half_even_int)

lemma round64_0: "round64 0 = Finite 0"
  by (simp add: round64_def)

lemma round64_1: "round64 1 = Finite 1"
proof (rule round64_normal [of 0])
  show "quantize 1 (int 0) = 1"
    by (rule quantize_exact [of _ "2 ^ 52"]) (simp add: power_int_def field_simps)
  show "(1::real) < 2 ^ 1024" by (rule below_overflow) simp
qed simp_all

lemma round64_2: "round64 2 = Finite 2"
proof (rule round64_normal [of 1])
  show "quantize 2 (int 1) = 2"
    by (rule quantize_exact [of _ "2 ^ 52"]) (simp add: power_int_def field_simps)
  show "(2::real) < 2 ^ 1024" by (rule below_overflow) simp
qed simp_all

lemma round64_25: "round64 25 = Finite 25"
proof (rule round64_normal [of 4])
  show "quantize 25 (int 4) = 25"
    by (rule quantize_exact [of _ "25 * 2 ^ 48"]) (simp add: power_int_def field_simps)
  show "(25::real) < 2 ^ 1024" by (rule below_overflow) simp
qed simp_all

lemma round64_50: "round64 50 = Finite 50"
proof (rule round64_normal [of 5])
  show "quantize 50 (int 5) = 50"
    by (rule quantize_exact [of _ "50 * 2 ^ 47"]) (simp add: power_int_def field_simps)
  show "(50::real) < 2 ^ 1024" by (rule below_overflow) simp
qed simp_all

lemma round64_100: "round64 100 = Finite 100"
proof (rule round64_normal [of 6])
  show "quantize 100 (int 6) = 100"
    by (rule quantize_exact [of _ "100 * 2 ^ 46"]) (simp add: power_int_def field_simps)
  show "(100::real) < 2 ^ 1024" by (rule below_overflow) simp
qed simp_all

lemma round64_2p53: "round64 9007199254740992 = Finite 9007199254740992"
proof (rule round64_normal [of 53])
  show "quantize 9007199254740992 (int 53) = 9007199254740992"
    by (rule quantize_exact [of _ "2 ^ 52"]) (simp add: power_int_def)
  show "(9007199254740992::real) < 2 ^ 1024" by (rule below_overflow) simp
qed simp_all

text \<open>
  \<open>2 ^ 53 + 1\<close> lies halfway between the neighbours \<open>2 ^ 53\<close> and \<open>2 ^ 53 + 2\<close>
  and rounds to the one with the even significand.
\<close>

lemma round64_2p53_1: "round64 9007199254740993 = Finite 9007199254740992"
proof (rule round64_normal [of 53])
  show "quantize 9007199254740993 (int 53) = 9007199254740992"
    by (simp add: quantize_def round_half_even_def power_int_def Let_def)
  show "(9007199254740992::real) < 2 ^ 1024" by (rule below_overflow) simp
qed simp_all

lemma round64_2p53_2: "round64 9007199254740994 = Finite 9007199254740994"
proof (rule round64_normal [of 53])
  show "quantize 9007199254740994 (int 53) = 9007199254740994"
    by (rule quantize_exact [of _ "2 ^ 52 + 1"]) (simp add: power_int_def)
  show "(9007199254740994::real) < 2 ^ 1024" by (rule below_overflow) simp
qed simp_all

lemmas float_eval =
  zero_double_def plus_double_def py_sum_def round64_0 round64_1 round64_2 round64_25
  round64_50 round64_100 round64_2p53 round64_2p53_1 round64_2p53_2

section \<open>Properties of the redundant logic detector\<close>

lemmas detector_defs =
  analyze_redundant_logic_def check_step_def has_alternate_path_def expand_def
  build_graph_def graph_step_def add_edge_def neighbors_def rel_row_def get_str_def
  get_or_zero_def safe_float_def Let_def activity_code_def fcard_finsert_if fcard_fempty
  zero_double_def plus_double_def round64_0

lemma walk_snoc: "walk g (xs @ [c]) \<Longrightarrow> is_edge g c n \<Longrightarrow> walk g (xs @ [c, n])"
  by (induction g xs rule: walk.induct) auto

lemma expand_ok:
  assumes "entry_ok g s (c, l, p)" and "ent \<in> set (expand g (c, l, p))"
  shows "entry_ok g s ent"
proof -
  from assms(2) obtain n t lag where n: "(n, t, lag) \<in> set (neighbors g c)"
    and ent: "ent = (n, l + lag, p @ [c])"
    by (auto simp: expand_def)
  from n have "is_edge g c n" by (force simp: is_edge_def)
  with assms(1) have "walk g (p @ [c, n])" by (simp add: entry_ok_def walk_snoc)
  moreover from assms(1) have "hd (p @ [c, n]) = s" by (cases p) (auto simp: entry_ok_def)
  ultimately show ?thesis by (simp add: ent entry_ok_def)
qed

text \<open>
  Whenever the loop answers \<open>True\<close> from well-formed entries, the graph has a walk from the
  start to the end node with more than one node before the end, that is, at least two
  edges.
\<close>

lemma search_loop_sound:
  "search_loop g e q v \<Longrightarrow> \<forall>ent\<in>set q. entry_ok g s ent \<Longrightarrow>
     \<exists>p. 1 < length p \<and> hd p = s \<and> walk g (p @ [e])"
proof (induction g e q v rule: search_loop.induct)
  case (1 g e v)
  then show ?case by simp
next
  case (2 g e c l p q v)
  show ?case
  proof (cases "c = e \<and> 1 < length p")
    case True
    from "2.prems"(2) have "entry_ok g s (c, l, p)" by simp
    with True have "walk g (p @ [e])" "hd p = s" by (cases p; auto simp: entry_ok_def)+
    with True show ?thesis by blast
  next
    case False
    from "2.prems"(2) have ok: "entry_ok g s (c, l, p)" and rest: "\<forall>ent\<in>set q. entry_ok g s ent"
      by simp_all
    from ok rest have all: "\<forall>ent\<in>set (q @ expand g (c, l, p)). entry_ok g s ent"
      by (auto intro: expand_ok)
    from "2.prems"(1) False "2.IH" rest all show ?thesis
      by (auto split: if_splits)
  qed
qed

lemma has_alternate_path_sound:
  assumes "has_alternate_path g start end direct_rel"
  shows "\<exists>path. 1 < length path \<and> hd path = start \<and> walk g (path @ [end])"
proof -
  have "\<forall>ent\<in>set [(start, 0::double, [])]. entry_ok g start ent"
    by (simp add: entry_ok_def)
  with assms show ?thesis
    unfolding has_alternate_path_def by (rule search_loop_sound)
qed

text \<open>
  C1. On the relationships A\<rightarrow>B, B\<rightarrow>C, A\<rightarrow>C (all FS, lag 0) the detector flags exactly the
  direct edge A\<rightarrow>C, whatever the activity table and the number parser are. The single
  relationship A\<rightarrow>C alone is not flagged: reaching the successor in one hop does not count.
  In general the search answers yes only when the graph has a walk from the predecessor to
  the successor with at least two nodes before the successor, so with at least two edges.
\<close>

theorem shortcut_edge_flagged:
  "map (\<lambda>r. (predecessor_id r, successor_id r, relationship_type r))
     (redundant_relationships (analyze_redundant_logic pyfloat activities chain_with_shortcut))
     = [(''A'', ''C'', ''PR_FS'')]
   \<and> redundant_relationships
       (analyze_redundant_logic pyfloat activities [rel_row ''A'' ''C'' ''PR_FS'' ''0'']) = []
   \<and> (has_alternate_path g start end direct_rel \<longrightarrow>
        (\<exists>path. 1 < length path \<and> hd path = start \<and> walk g (path @ [end])))"
proof (intro conjI impI)
  show "map (\<lambda>r. (predecessor_id r, successor_id r, relationship_type r))
     (redundant_relationships (analyze_redundant_logic pyfloat activities chain_with_shortcut))
     = [(''A'', ''C'', ''PR_FS'')]"
    by (simp add: detector_defs chain_with_shortcut_def)
  show "redundant_relationships
       (analyze_redundant_logic pyfloat activities [rel_row ''A'' ''C'' ''PR_FS'' ''0'']) = []"
    by (simp add: detector_defs)
  show "\<exists>path. 1 < length path \<and> hd path = start \<and> walk g (path @ [end])"
    if "has_alternate_path g start end direct_rel"
    using that by (rule has_alternate_path_sound)
qed

theorem shortcut_edge_flagged_witness:
  "has_alternate_path (build_graph float_fragment chain_with_shortcut) ''A'' ''C'' (''PR_FS'', 0)
   \<and> (\<exists>path. 1 < length path \<and> hd path = ''A''
        \<and> walk (build_graph float_fragment chain_with_shortcut) (path @ [''C'']))"
proof -
  have h: "has_alternate_path (build_graph float_fragment chain_with_shortcut) ''A'' ''C''
             (''PR_FS'', 0)"
    by (simp add: detector_defs chain_with_shortcut_def float_fragment_def)
  from shortcut_edge_flagged [of float_fragment "[]"
      "build_graph float_fragment chain_with_shortcut" "''A''" "''C''" "(''PR_FS'', 0)"] h
  show ?thesis by blast
qed

section \<open>Properties of the parser\<close>

lemmas parser_defs =
  parse_xer_simplified_def splitlines_def strip_def split_tab_def startswith_def
  is_linebreak_def is_space_def parse_line_def make_row_def row_fill_def append_row_def
  initial_state_def Let_def tab_def nl_def

lemma row_fill_dom: "dom (row_fill cs values i r) = insert (cs ! i) (dom r)"
  by (simp add: row_fill_def)

lemma fill_dom:
  "n \<le> length cs \<Longrightarrow> dom (fold (row_fill cs values) [0..<n] Map.empty) = set (take n cs)"
  by (induction n) (auto simp: row_fill_dom take_Suc_conv_app_nth)

text \<open>
  After the first \<open>n\<close> columns, the key of column \<open>i\<close> holds the padded value of
  position \<open>i\<close>, provided no later column among them has the same name.
\<close>

lemma fill_value:
  "n \<le> length cs \<Longrightarrow> i < n \<Longrightarrow> \<forall>j. i < j \<and> j < n \<longrightarrow> cs ! j \<noteq> cs ! i \<Longrightarrow>
     fold (row_fill cs values) [0..<n] Map.empty (cs ! i)
       = Some (if i < length values then values ! i else [])"
proof (induction n)
  case 0
  then show ?case by simp
next
  case (Suc n)
  have step: "fold (row_fill cs values) [0..<Suc n] Map.empty
          = row_fill cs values n (fold (row_fill cs values) [0..<n] Map.empty)" by simp
  show ?case
  proof (cases "i = n")
    case True
    have "row_fill cs values n r (cs ! n)
            = Some (if n < length values then values ! n else [])" for r
      by (simp add: row_fill_def)
    with True show ?thesis by (simp only: step)
  next
    case False
    with Suc.prems have lt: "i < n" by simp
    with Suc.prems(3) have "cs ! n \<noteq> cs ! i" by blast
    then have ne: "cs ! i \<noteq> cs ! n" by simp
    from Suc.prems have "\<forall>j. i < j \<and> j < n \<longrightarrow> cs ! j \<noteq> cs ! i" by simp
    with Suc.IH Suc.prems(1) lt
    have ih: "fold (row_fill cs values) [0..<n] Map.empty (cs ! i)
            = Some (if i < length values then values ! i else [])" by simp
    from ne have "row_fill cs values n r (cs ! i) = r (cs ! i)" for r
      by (simp add: row_fill_def)
    with ih show ?thesis by (simp only: step)
  qed
qed

lemma make_row_dom: "dom (make_row cs values) = set cs"
  by (simp add: make_row_def fill_dom)

lemma make_row_value:
  "i < length cs \<Longrightarrow> \<forall>j. i < j \<and> j < length cs \<longrightarrow> cs ! j \<noteq> cs ! i \<Longrightarrow>
     make_row cs values (cs ! i) = Some (if i < length values then values ! i else [])"
  by (simp add: make_row_def fill_value)

lemma make_row_take: "make_row cs (take (length cs) values) = make_row cs values"
  unfolding make_row_def by (rule fold_cong) (auto simp: row_fill_def)

lemma startswith_nonempty: "startswith s (c # p) \<Longrightarrow> s \<noteq> []"
  by (auto simp: startswith_def)

lemma parse_line_row:
  assumes "startswith (strip raw) ''%R''" "current st = Some t" "t \<noteq> []" "cols st \<noteq> []"
  shows "parse_line raw st =
     Inr (st\<lparr>tables := append_row t (make_row (cols st) (tl (split_tab (strip raw)))) (tables st)\<rparr>)"
proof -
  from assms(1) have ne: "strip raw \<noteq> []" by (rule startswith_nonempty)
  from assms(1) have nt: "\<not> startswith (strip raw) ''%T''" "\<not> startswith (strip raw) ''%F''"
    by (auto simp: startswith_def)
  from ne nt assms show ?thesis by (simp add: parse_line_def Let_def)
qed

text \<open>
  C5. A row-data line (its stripped text starts with the row marker) processed while a
  current table name and a non-empty column list exist never fails and hands one row
  \<open>r\<close> to the table of the current name. The keys of \<open>r\<close> are exactly the declared
  columns. The column at position \<open>i\<close> holds the value at position \<open>i\<close> of the line, or
  the empty string when the line has no value there; when a column name is declared more
  than once, the key holds the entry of its last position. Values beyond the declared
  column count are ignored: \<open>r\<close> is the row built from the first \<open>length cols\<close> values.
\<close>

theorem row_has_declared_columns:
  assumes "startswith (strip raw) ''%R''" and "current st = Some t" and "t \<noteq> []"
    and "cols st \<noteq> []"
  shows "\<exists>r. parse_line raw st = Inr (st\<lparr>tables := append_row t r (tables st)\<rparr>)
     \<and> dom r = set (cols st)
     \<and> (\<forall>i<length (cols st).
          (\<forall>j. i < j \<and> j < length (cols st) \<longrightarrow> cols st ! j \<noteq> cols st ! i) \<longrightarrow>
          r (cols st ! i) =
            Some (if i < length (tl (split_tab (strip raw)))
                  then tl (split_tab (strip raw)) ! i else []))
     \<and> r = make_row (cols st) (take (length (cols st)) (tl (split_tab (strip raw))))"
proof (intro exI conjI allI impI)
  show "parse_line raw st =
     Inr (st\<lparr>tables := append_row t (make_row (cols st) (tl (split_tab (strip raw)))) (tables st)\<rparr>)"
    using assms by (rule parse_line_row)
  show "dom (make_row (cols st) (tl (split_tab (strip raw)))) = set (cols st)"
    by (rule make_row_dom)
  show "make_row (cols st) (tl (split_tab (strip raw))) (cols st ! i) =
            Some (if i < length (tl (split_tab (strip raw)))
                  then tl (split_tab (strip raw)) ! i else [])"
    if "i < length (cols st)"
      and "\<forall>j. i < j \<and> j < length (cols st) \<longrightarrow> cols st ! j \<noteq> cols st ! i" for i
    using that by (rule make_row_value)
  show "make_row (cols st) (tl (split_tab (strip raw)))
          = make_row (cols st) (take (length (cols st)) (tl (split_tab (strip raw))))"
    by (simp add: make_row_take)
qed

theorem row_has_declared_columns_witness:
  "\<exists>r. parse_line short_row_line short_row_state
          = Inr (short_row_state\<lparr>tables := append_row ''TASK'' r (tables short_row_state)\<rparr>)
     \<and> dom r = {''task_id'', ''task_type'', ''task_code''}
     \<and> r ''task_id'' = Some ''7'' \<and> r ''task_code'' = Some []"
proof -
  have vals: "tl (split_tab (strip short_row_line)) = [''7'']"
    by (simp add: short_row_line_def strip_def split_tab_def is_space_def tab_def)
  have h1: "startswith (strip short_row_line) ''%R''"
    by (simp add: short_row_line_def strip_def startswith_def is_space_def tab_def)
  have h2: "current short_row_state = Some ''TASK''" by (simp add: short_row_state_def)
  have h3: "''TASK'' \<noteq> []" by simp
  have cs: "cols short_row_state = [''task_id'', ''task_type'', ''task_code'']"
    by (simp add: short_row_state_def)
  have h4: "cols short_row_state \<noteq> []" by (simp add: cs)
  have "distinct (cols short_row_state)" by (simp add: cs)
  then have later: "\<forall>j. i < j \<and> j < length (cols short_row_state)
                \<longrightarrow> cols short_row_state ! j \<noteq> cols short_row_state ! i" for i
    by (auto simp: nth_eq_iff_index_eq)
  from row_has_declared_columns [OF h1 h2 h3 h4] obtain r where
    p: "parse_line short_row_line short_row_state
          = Inr (short_row_state\<lparr>tables := append_row ''TASK'' r (tables short_row_state)\<rparr>)"
    and d: "dom r = set (cols short_row_state)"
    and v: "\<forall>i<length (cols short_row_state).
          (\<forall>j. i < j \<and> j < length (cols short_row_state)
                \<longrightarrow> cols short_row_state ! j \<noteq> cols short_row_state ! i) \<longrightarrow>
          r (cols short_row_state ! i) =
            Some (if i < length (tl (split_tab (strip short_row_line)))
                  then tl (split_tab (strip short_row_line)) ! i else [])"
    by blast
  have "0 < length (cols short_row_state)" by (simp add: cs)
  with v later [of 0] have "r (cols short_row_state ! 0) =
            Some (if 0 < length (tl (split_tab (strip short_row_line)))
                  then tl (split_tab (strip short_row_line)) ! 0 else [])" by blast
  then have r0: "r ''task_id'' = Some ''7''" by (simp add: cs vals)
  have "2 < length (cols short_row_state)" by (simp add: cs)
  with v later [of 2] have "r (cols short_row_state ! 2) =
            Some (if 2 < length (tl (split_tab (strip short_row_line)))
                  then tl (split_tab (strip short_row_line)) ! 2 else [])" by blast
  then have r2: "r ''task_code'' = Some []" by (simp add: cs vals)
  from d have "dom r = {''task_id'', ''task_type'', ''task_code''}" by (simp add: cs)
  with p r0 r2 show ?thesis by blast
qed

text \<open>
  C6. The parser does not complete on every input. A table-declaration line without a
  tab makes \<open>line.split('\t')[1]\<close> raise \<open>IndexError\<close>: the bare marker, the marker
  followed only by a tab (the tab is stripped first), and a well-formed export followed
  by a bare marker, whose three rows are then lost with the whole parse. The same export
  without that last line parses.
\<close>

theorem bare_table_marker_aborts:
  "parse_xer_simplified ''%T'' = Inl IndexError
   \<and> parse_xer_simplified (''%T'' @ tab) = Inl IndexError
   \<and> parse_xer_simplified (sample_export @ ''%T'') = Inl IndexError
   \<and> (\<exists>d. parse_xer_simplified sample_export = Inr d \<and> length (tasks d) = 3)"
  by (simp add: parser_defs sample_export_def)

section \<open>Properties of the metrics\<close>

lemma hist_total_bump:
  "distinct names \<Longrightarrow> name \<in> set names \<Longrightarrow> counts name = Some c \<Longrightarrow>
     hist_total names (counts(name \<mapsto> c + 1)) = hist_total names counts + 1"
proof (induction names)
  case Nil
  then show ?case by simp
next
  case (Cons n names)
  show ?case
  proof (cases "n = name")
    case True
    with Cons.prems have "name \<notin> set names" by simp
    then have "hist_total names (counts(name \<mapsto> c + 1)) = hist_total names counts"
      by (induction names) (auto simp: hist_total_def)
    with True Cons.prems(3) show ?thesis by (simp add: hist_total_def)
  next
    case False
    with Cons show ?thesis by (simp add: hist_total_def)
  qed
qed

text \<open>
  The counting loop never raises when every name of the table is a key of the histogram;
  it keeps the keys and adds one per row whose tag maps to a truthy name.
\<close>

lemma count_by_type_total:
  assumes "distinct names" and "snd ` set table \<subseteq> set names" and "set names \<subseteq> dom counts"
  shows "\<exists>h. count_by_type table tag rs counts = Inr h \<and> dom h = dom counts
           \<and> hist_total names h = hist_total names counts + length (filter (mapped table tag) rs)"
  using assms(3)
proof (induction rs arbitrary: counts)
  case Nil
  then show ?case by simp
next
  case (Cons r rs)
  show ?case
  proof (cases "mapped table tag r")
    case False
    with Cons show ?thesis by (auto simp: mapped_def split: option.splits)
  next
    case True
    then obtain name where nm: "map_of table (tag r) = Some name" "name \<noteq> []"
      by (auto simp: mapped_def split: option.splits)
    then have "name \<in> snd ` set table" by (force dest: map_of_SomeD)
    with assms(2) have mem: "name \<in> set names" by blast
    with Cons.prems obtain c where c: "counts name = Some c" by blast
    have dm: "dom (counts(name \<mapsto> c + 1)) = dom counts" using c by auto
    with Cons.prems have "set names \<subseteq> dom (counts(name \<mapsto> c + 1))" by simp
    from Cons.IH [OF this] obtain h where
      h: "count_by_type table tag rs (counts(name \<mapsto> c + 1)) = Inr h"
         "dom h = dom (counts(name \<mapsto> c + 1))"
         "hist_total names h = hist_total names (counts(name \<mapsto> c + 1))
                                + length (filter (mapped table tag) rs)"
      by blast
    have "hist_total names (counts(name \<mapsto> c + 1)) = hist_total names counts + 1"
      using assms(1) mem c by (rule hist_total_bump [of names name counts c])
    with h True nm c dm show ?thesis by simp
  qed
qed

lemma zero_fold_dom: "dom (fold (\<lambda>v m. m(v \<mapsto> 0::nat)) vs m0) = set vs \<union> dom m0"
  by (induction vs arbitrary: m0) auto

lemma zero_fold_val:
  "\<forall>k c. m0 k = Some c \<longrightarrow> c = 0 \<Longrightarrow> fold (\<lambda>v m. m(v \<mapsto> 0::nat)) vs m0 k = Some c \<Longrightarrow> c = 0"
proof (induction vs arbitrary: m0)
  case Nil
  then show ?case by simp
next
  case (Cons a vs)
  from Cons.prems(1) have "\<forall>k c. (m0(a \<mapsto> 0)) k = Some c \<longrightarrow> c = 0" by simp
  moreover from Cons.prems(2) have "fold (\<lambda>v m. m(v \<mapsto> 0::nat)) vs (m0(a \<mapsto> 0)) k = Some c"
    by (simp only: fold.simps o_apply)
  ultimately show ?case by (rule Cons.IH)
qed

lemma zero_counts_dom: "dom (zero_counts table) = snd ` set table"
  by (simp add: zero_counts_def zero_fold_dom)

lemma zero_counts_total: "hist_total names (zero_counts table) = 0"
proof -
  have "(case zero_counts table n of None \<Rightarrow> 0 | Some c \<Rightarrow> c) = 0" for n
    using zero_fold_val [of Map.empty "map snd table" n]
    by (auto simp: zero_counts_def split: option.splits)
  then show ?thesis by (simp add: hist_total_def)
qed

lemma mapped_activity:
  "mapped XER_ACTIVITY_MAP tag = (\<lambda>a. map_of XER_ACTIVITY_MAP (tag a) \<noteq> None)"
proof
  fix a
  have "\<forall>name \<in> snd ` set XER_ACTIVITY_MAP. name \<noteq> []"
    by (simp add: XER_ACTIVITY_MAP_def)
  then show "mapped XER_ACTIVITY_MAP tag a = (map_of XER_ACTIVITY_MAP (tag a) \<noteq> None)"
    by (force simp: mapped_def split: option.splits dest: map_of_SomeD)
qed

lemma mapped_relationship:
  "mapped XER_REL_MAP tag = (\<lambda>a. map_of XER_REL_MAP (tag a) \<noteq> None)"
proof
  fix a
  have "\<forall>name \<in> snd ` set XER_REL_MAP. name \<noteq> []"
    by (simp add: XER_REL_MAP_def)
  then show "mapped XER_REL_MAP tag a = (map_of XER_REL_MAP (tag a) \<noteq> None)"
    by (force simp: mapped_def split: option.splits dest: map_of_SomeD)
qed

lemma activity_counts_total:
  "\<exists>h. activity_counts acts = Inr h \<and> dom h = set activity_names
     \<and> hist_total activity_names h
         = length (filter (\<lambda>a. map_of XER_ACTIVITY_MAP (get_str a ''task_type'' []) \<noteq> None) acts)"
proof -
  have d: "distinct activity_names" by (simp add: activity_names_def XER_ACTIVITY_MAP_def)
  have s: "snd ` set XER_ACTIVITY_MAP \<subseteq> set activity_names" by (simp add: activity_names_def)
  have z: "dom (zero_counts XER_ACTIVITY_MAP) = set activity_names"
    by (simp add: zero_counts_dom activity_names_def)
  from z have sub: "set activity_names \<subseteq> dom (zero_counts XER_ACTIVITY_MAP)" by simp
  from count_by_type_total [OF d s sub, of "\<lambda>activity. get_str activity ''task_type'' []" acts]
  show ?thesis by (simp add: activity_counts_def z zero_counts_total mapped_activity)
qed

lemma relationship_counts_total:
  "\<exists>h. relationship_counts rels = Inr h \<and> dom h = set relationship_names
     \<and> hist_total relationship_names h
         = length (filter (\<lambda>r. map_of XER_REL_MAP (get_str r ''pred_type'' ''PR_FS'') \<noteq> None) rels)"
proof -
  have d: "distinct relationship_names" by (simp add: relationship_names_def XER_REL_MAP_def)
  have s: "snd ` set XER_REL_MAP \<subseteq> set relationship_names" by (simp add: relationship_names_def)
  have z: "dom (zero_counts XER_REL_MAP) = set relationship_names"
    by (simp add: zero_counts_dom relationship_names_def)
  from z have sub: "set relationship_names \<subseteq> dom (zero_counts XER_REL_MAP)" by simp
  from count_by_type_total [OF d s sub, of "\<lambda>rel. get_str rel ''pred_type'' ''PR_FS''" rels]
  show ?thesis by (simp add: relationship_counts_def z zero_counts_total mapped_relationship)
qed

lemma bump_fold:
  "fold (\<lambda>a counts. bump counts (f a)) asg m k =
     (case m k of
        None \<Rightarrow> if length (filter (\<lambda>a. f a = k) asg) = 0 then None
                else Some (length (filter (\<lambda>a. f a = k) asg))
      | Some c \<Rightarrow> Some (c + length (filter (\<lambda>a. f a = k) asg)))"
  by (induction asg arbitrary: m) (auto simp: bump_def split: option.splits)

lemma resource_counts_value:
  "resource_counts lookup asg k =
     (if length (filter (\<lambda>a. resource_class lookup a = k) asg) = 0 then None
      else Some (length (filter (\<lambda>a. resource_class lookup a = k) asg)))"
  by (simp add: resource_counts_def bump_fold)

lemma resource_counts_dom: "dom (resource_counts lookup asg) = resource_class lookup ` set asg"
  by (auto simp: dom_def resource_counts_value filter_empty_conv)

lemma resource_class_cases:
  "resource_class lookup a \<in> {''Labor'', ''Material'', ''Non-Labor''}"
  by (simp add: resource_class_def Let_def)

lemma labor_iff:
  "rsrc_type_opt lookup a = Some ''RT_Labor'' \<longleftrightarrow> resource_class lookup a = ''Labor''"
  by (auto simp: rsrc_type_opt_def resource_class_def get_str_def Let_def split: option.splits)

lemma material_iff:
  "rsrc_type_opt lookup a = Some ''RT_Mat'' \<longleftrightarrow> resource_class lookup a = ''Material''"
  by (auto simp: rsrc_type_opt_def resource_class_def get_str_def Let_def split: option.splits)

lemma nonlabor_iff:
  "rsrc_type_opt lookup a \<notin> set [Some ''RT_Labor'', Some ''RT_Mat'']
     \<longleftrightarrow> resource_class lookup a = ''Non-Labor''"
  by (auto simp: rsrc_type_opt_def resource_class_def get_str_def Let_def split: option.splits)

lemma class_filters_partition:
  "mset (filter (\<lambda>a. resource_class lookup a = ''Labor'') asg)
   + mset (filter (\<lambda>a. resource_class lookup a = ''Material'') asg)
   + mset (filter (\<lambda>a. resource_class lookup a = ''Non-Labor'') asg) = mset asg"
proof (induction asg)
  case Nil
  then show ?case by simp
next
  case (Cons a asg)
  from resource_class_cases [of lookup a] Cons show ?case by auto
qed

lemma resource_counts_or_zero:
  "(case resource_counts lookup asg k of None \<Rightarrow> 0 | Some c \<Rightarrow> c)
     = length (filter (\<lambda>a. resource_class lookup a = k) asg)"
  by (simp add: resource_counts_value)

lemma class_partition:
  "length (filter (\<lambda>a. resource_class lookup a = ''Labor'') asg)
   + length (filter (\<lambda>a. resource_class lookup a = ''Material'') asg)
   + length (filter (\<lambda>a. resource_class lookup a = ''Non-Labor'') asg) = length asg"
proof (induction asg)
  case Nil
  then show ?case by simp
next
  case (Cons a asg)
  from resource_class_cases [of lookup a] Cons show ?case by auto
qed

lemma count_partition:
  "hist_total [''Labor'', ''Material'', ''Non-Labor''] (resource_counts lookup asg) = length asg"
  using class_partition [of lookup asg]
  by (simp add: hist_total_def resource_counts_or_zero)

lemma lookup_fold_miss:
  "\<forall>x\<in>set post. get_str x ''rsrc_id'' [] \<noteq> k \<Longrightarrow>
     fold (\<lambda>r m. m(get_str r ''rsrc_id'' [] \<mapsto> r)) post m k = m k"
  by (induction post arbitrary: m) auto

lemma resource_lookup_last:
  assumes "get_str r ''rsrc_id'' [] = k" and "\<forall>x\<in>set post. get_str x ''rsrc_id'' [] \<noteq> k"
  shows "resource_lookup (pre @ r # post) k = Some r"
  using assms by (simp add: resource_lookup_def lookup_fold_miss)

lemma activity_code_first:
  assumes "get_str a ''task_id'' [] = k" and "\<forall>x\<in>set pre. get_str x ''task_id'' [] \<noteq> k"
  shows "activity_code (pre @ a # post) k = get_str a ''task_code'' k"
proof -
  from assms have "find (\<lambda>act. get_str act ''task_id'' [] = k) (pre @ a # post) = Some a"
    by (induction pre) auto
  then show ?thesis by (simp add: activity_code_def)
qed

lemma check_total:
  "snd (fold (check_step pf g acts) rels st) = snd st + length rels"
  by (induction rels arbitrary: st) (auto simp: check_step_def Let_def split: prod.splits)

lemma total_checked_all:
  "total_relationships_checked (analyze_redundant_logic pf acts rels) = length rels"
  by (simp add: analyze_redundant_logic_def Let_def check_total)

lemma graph_step_skip: "\<not> has_endpoints rel \<Longrightarrow> graph_step pf rel g = g"
  by (auto simp: graph_step_def has_endpoints_def Let_def)

lemma build_graph_filter: "build_graph pf rels = build_graph pf (filter has_endpoints rels)"
proof -
  have "fold (graph_step pf) rels g = fold (graph_step pf) (filter has_endpoints rels) g" for g
    by (induction rels arbitrary: g) (simp_all add: graph_step_skip)
  then show ?thesis by (simp add: build_graph_def)
qed

lemma check_step_flagged:
  "\<forall>x\<in>set (fst st). predecessor_id x \<noteq> [] \<and> successor_id x \<noteq> [] \<Longrightarrow>
   \<forall>x\<in>set (fst (check_step pf g acts rel st)). predecessor_id x \<noteq> [] \<and> successor_id x \<noteq> []"
  by (auto simp: check_step_def Let_def split: prod.splits)

lemma check_fold_flagged:
  "\<forall>x\<in>set (fst st). predecessor_id x \<noteq> [] \<and> successor_id x \<noteq> [] \<Longrightarrow>
   \<forall>x\<in>set (fst (fold (check_step pf g acts) rels st)).
      predecessor_id x \<noteq> [] \<and> successor_id x \<noteq> []"
proof (induction rels arbitrary: st)
  case Nil
  then show ?case by simp
next
  case (Cons rel rels)
  from Cons.prems
  have "\<forall>x\<in>set (fst (check_step pf g acts rel st)). predecessor_id x \<noteq> [] \<and> successor_id x \<noteq> []"
    by (rule check_step_flagged)
  then have "\<forall>x\<in>set (fst (fold (check_step pf g acts) rels (check_step pf g acts rel st))).
      predecessor_id x \<noteq> [] \<and> successor_id x \<noteq> []"
    by (rule Cons.IH)
  then show ?case by simp
qed

lemma flagged_have_endpoints:
  "\<forall>x\<in>set (redundant_relationships (analyze_redundant_logic pf acts rels)).
      predecessor_id x \<noteq> [] \<and> successor_id x \<noteq> []"
proof -
  have "\<forall>x\<in>set (fst (fold (check_step pf (build_graph pf rels) acts) rels ([], 0))).
      predecessor_id x \<noteq> [] \<and> successor_id x \<noteq> []"
    by (rule check_fold_flagged) simp
  then show ?thesis by (simp add: analyze_redundant_logic_def Let_def)
qed

lemma analyze_project_data_total:
  "\<exists>m. analyze_project_data pf d = Inr m
     \<and> m_resource_counts m = resource_counts (resource_lookup (rsrcs d)) (assigns d)
     \<and> dom (m_activity_counts m) = set activity_names
     \<and> dom (m_relationship_counts m) = set relationship_names"
proof -
  from activity_counts_total [of "tasks d"] obtain ha where
    ha: "activity_counts (tasks d) = Inr ha" "dom ha = set activity_names" by blast
  from relationship_counts_total [of "preds d"] obtain hr where
    hr: "relationship_counts (preds d) = Inr hr" "dom hr = set relationship_names" by blast
  from ha hr show ?thesis by (simp add: analyze_project_data_def Let_def)
qed

lemmas metrics_defs =
  analyze_project_data_def activity_counts_def relationship_counts_def zero_counts_def
  XER_ACTIVITY_MAP_def XER_REL_MAP_def resource_lookup_def resource_counts_def bump_def
  resource_class_def lookup_resource_def rsrc_type_opt_def cost_of_def labor_cost_def
  nonlabor_cost_def material_cost_def hist_total_def activity_names_def relationship_names_def

text \<open>
  C7. For every list of activities the counting loop returns a histogram (it never
  raises) whose keys are exactly the six names of the activity table. The six counts add
  up to the number of activities whose type tag is a key of the table; the other
  activities are not counted, yet they stay in the list: its length is that sum plus the
  number of unmapped activities. With no activity all six counts are 0. On the sample
  export the parser keeps all three TASK rows and only the one with a known tag is
  counted.
\<close>

theorem activity_histogram_complete:
  "(\<exists>h. activity_counts acts = Inr h
        \<and> dom h = set activity_names
        \<and> hist_total activity_names h
            = length (filter (\<lambda>a. map_of XER_ACTIVITY_MAP (get_str a ''task_type'' []) \<noteq> None) acts)
        \<and> length acts
            = hist_total activity_names h
              + length (filter (\<lambda>a. map_of XER_ACTIVITY_MAP (get_str a ''task_type'' []) = None) acts))
   \<and> length activity_names = 6 \<and> distinct activity_names
   \<and> (\<exists>h0. activity_counts [] = Inr h0 \<and> map h0 activity_names = replicate 6 (Some 0))
   \<and> (\<exists>d h. parse_xer_simplified sample_export = Inr d \<and> length (tasks d) = 3
          \<and> activity_counts (tasks d) = Inr h \<and> hist_total activity_names h = 1)"
proof (intro conjI)
  from activity_counts_total [of acts] obtain h where
    h: "activity_counts acts = Inr h" "dom h = set activity_names"
       "hist_total activity_names h
          = length (filter (\<lambda>a. map_of XER_ACTIVITY_MAP (get_str a ''task_type'' []) \<noteq> None) acts)"
    by blast
  have "length acts
      = length (filter (\<lambda>a. map_of XER_ACTIVITY_MAP (get_str a ''task_type'' []) \<noteq> None) acts)
        + length (filter (\<lambda>a. map_of XER_ACTIVITY_MAP (get_str a ''task_type'' []) = None) acts)"
    using sum_length_filter_compl [of "\<lambda>a. map_of XER_ACTIVITY_MAP (get_str a ''task_type'' []) \<noteq> None" acts]
    by simp
  with h show "\<exists>h. activity_counts acts = Inr h
        \<and> dom h = set activity_names
        \<and> hist_total activity_names h
            = length (filter (\<lambda>a. map_of XER_ACTIVITY_MAP (get_str a ''task_type'' []) \<noteq> None) acts)
        \<and> length acts
            = hist_total activity_names h
              + length (filter (\<lambda>a. map_of XER_ACTIVITY_MAP (get_str a ''task_type'' []) = None) acts)"
    by simp
  show "length activity_names = 6" by (simp add: activity_names_def XER_ACTIVITY_MAP_def)
  show "distinct activity_names" by (simp add: activity_names_def XER_ACTIVITY_MAP_def)
  show "\<exists>h0. activity_counts [] = Inr h0 \<and> map h0 activity_names = replicate 6 (Some 0)"
    by (simp add: metrics_defs numeral_eq_Suc)
  show "\<exists>d h. parse_xer_simplified sample_export = Inr d \<and> length (tasks d) = 3
          \<and> activity_counts (tasks d) = Inr h \<and> hist_total activity_names h = 1"
    by (simp add: parser_defs sample_export_def metrics_defs get_str_def)
qed


text \<open>
  C8, amended. Every assignment has exactly one class among Labor, Material and
  Non-Labor. The tally of a class is the number of assignments of that class (the key is
  absent when there is none) and the three tallies add up to the number of assignments.
  Each cost sum is the float sum, in table order, of the costs of the assignments of its
  class, the same class as in the tally, and the three classes split the assignments
  without loss or repetition: every cost enters exactly one of the three sums. An
  assignment whose resource id has no resource record is Non-Labor. On the assignments R1
  (Labor, 100), R2 (Material, 50) and an unknown resource (25) the costs are labor 100,
  material 50, nonlabor 25.
\<close>

theorem assignment_in_one_class:
  "resource_class lookup a \<in> {''Labor'', ''Material'', ''Non-Labor''}
   \<and> resource_counts lookup asg k =
        (if length (filter (\<lambda>a. resource_class lookup a = k) asg) = 0 then None
         else Some (length (filter (\<lambda>a. resource_class lookup a = k) asg)))
   \<and> hist_total [''Labor'', ''Material'', ''Non-Labor''] (resource_counts lookup asg) = length asg
   \<and> labor_cost pf lookup asg
        = py_sum (map (cost_of pf) (filter (\<lambda>a. resource_class lookup a = ''Labor'') asg))
   \<and> material_cost pf lookup asg
        = py_sum (map (cost_of pf) (filter (\<lambda>a. resource_class lookup a = ''Material'') asg))
   \<and> nonlabor_cost pf lookup asg
        = py_sum (map (cost_of pf) (filter (\<lambda>a. resource_class lookup a = ''Non-Labor'') asg))
   \<and> mset (filter (\<lambda>a. resource_class lookup a = ''Labor'') asg)
        + mset (filter (\<lambda>a. resource_class lookup a = ''Material'') asg)
        + mset (filter (\<lambda>a. resource_class lookup a = ''Non-Labor'') asg) = mset asg
   \<and> (resource_lookup rs (get_str b ''rsrc_id'' []) = None \<longrightarrow>
        resource_class (resource_lookup rs) b = ''Non-Labor'')
   \<and> (\<exists>m. analyze_project_data float_fragment cost_data = Inr m
          \<and> m_costs m = \<lparr>labor = Finite 100, nonlabor = Finite 25, material = Finite 50\<rparr>
          \<and> map (m_resource_counts m) [''Labor'', ''Material'', ''Non-Labor'']
                = [Some 1, Some 1, Some 1])"
proof (intro conjI impI)
  show "resource_class lookup a \<in> {''Labor'', ''Material'', ''Non-Labor''}"
    by (rule resource_class_cases)
  show "resource_counts lookup asg k =
        (if length (filter (\<lambda>a. resource_class lookup a = k) asg) = 0 then None
         else Some (length (filter (\<lambda>a. resource_class lookup a = k) asg)))"
    by (rule resource_counts_value)
  show "hist_total [''Labor'', ''Material'', ''Non-Labor''] (resource_counts lookup asg) = length asg"
    by (rule count_partition)
  show "labor_cost pf lookup asg
        = py_sum (map (cost_of pf) (filter (\<lambda>a. resource_class lookup a = ''Labor'') asg))"
    by (simp add: labor_cost_def labor_iff)
  show "material_cost pf lookup asg
        = py_sum (map (cost_of pf) (filter (\<lambda>a. resource_class lookup a = ''Material'') asg))"
    by (simp add: material_cost_def material_iff)
  show "nonlabor_cost pf lookup asg
        = py_sum (map (cost_of pf) (filter (\<lambda>a. resource_class lookup a = ''Non-Labor'') asg))"
    unfolding nonlabor_cost_def by (simp only: nonlabor_iff)
  show "mset (filter (\<lambda>a. resource_class lookup a = ''Labor'') asg)
        + mset (filter (\<lambda>a. resource_class lookup a = ''Material'') asg)
        + mset (filter (\<lambda>a. resource_class lookup a = ''Non-Labor'') asg) = mset asg"
    by (rule class_filters_partition)
  show "resource_class (resource_lookup rs) b = ''Non-Labor''"
    if "resource_lookup rs (get_str b ''rsrc_id'' []) = None"
    using that by (simp add: resource_class_def lookup_resource_def get_str_def)
  show "\<exists>m. analyze_project_data float_fragment cost_data = Inr m
          \<and> m_costs m = \<lparr>labor = Finite 100, nonlabor = Finite 25, material = Finite 50\<rparr>
          \<and> map (m_resource_counts m) [''Labor'', ''Material'', ''Non-Labor'']
                = [Some 1, Some 1, Some 1]"
    by (simp add: metrics_defs cost_data_def cost_assignments_def cost_resources_def
          unknown_assignment_def float_fragment_def get_str_def get_or_zero_def safe_float_def
          float_eval)
qed

theorem assignment_in_one_class_witness:
  "resource_lookup cost_resources (get_str unknown_assignment ''rsrc_id'' []) = None
   \<and> resource_class (resource_lookup cost_resources) unknown_assignment = ''Non-Labor''"
proof -
  have h: "resource_lookup cost_resources (get_str unknown_assignment ''rsrc_id'' []) = None"
    by (simp add: resource_lookup_def cost_resources_def unknown_assignment_def get_str_def)
  from assignment_in_one_class [where rs = cost_resources and b = unknown_assignment] h
  show ?thesis by blast
qed

text \<open>
  C8, as stated, fails for the total: float addition rounds. With costs 1 (Material),
  1 (Non-Labor) and \<open>2 ^ 53\<close> (Labor) the three cost sums are exact, but adding them as
  labor + material + nonlabor, or as labor + nonlabor + material, gives \<open>2 ^ 53\<close>,
  because \<open>2 ^ 53 + 1\<close> rounds back to \<open>2 ^ 53\<close>, while the costs of all assignments
  add up to \<open>2 ^ 53 + 2\<close>, both as real numbers and as the float sum in table order.
\<close>

theorem cost_total_rounding_counterexample:
  "\<exists>m. analyze_project_data float_fragment rounding_data = Inr m
     \<and> m_costs m = \<lparr>labor = Finite 9007199254740992, nonlabor = Finite 1, material = Finite 1\<rparr>
     \<and> labor (m_costs m) + material (m_costs m) + nonlabor (m_costs m) = Finite 9007199254740992
     \<and> labor (m_costs m) + nonlabor (m_costs m) + material (m_costs m) = Finite 9007199254740992
     \<and> py_sum (map (cost_of float_fragment) (assigns rounding_data)) = Finite 9007199254740994
     \<and> (1::real) + 1 + 9007199254740992 = 9007199254740994"
  by (simp add: metrics_defs rounding_data_def rounding_assignments_def cost_resources_def
        float_fragment_def get_str_def get_or_zero_def safe_float_def float_eval)

text \<open>
  C10. The resource histogram has a key exactly for the classes that occur among the
  assignments: it is the empty mapping when there is no assignment, and no key is ever
  present with count 0. The analysis returns it unchanged, next to an activity and a
  relationship histogram that always carry all their keys. With the single Labor
  assignment of the example the keys Material and Non-Labor are absent.
\<close>

theorem resource_histogram_sparse:
  "resource_counts lookup [] = Map.empty
   \<and> dom (resource_counts lookup asg) = resource_class lookup ` set asg
   \<and> resource_counts lookup asg k \<noteq> Some 0
   \<and> (\<exists>m. analyze_project_data pf d = Inr m
          \<and> m_resource_counts m = resource_counts (resource_lookup (rsrcs d)) (assigns d)
          \<and> dom (m_activity_counts m) = set activity_names
          \<and> dom (m_relationship_counts m) = set relationship_names)
   \<and> (\<exists>m. analyze_project_data pf (cost_data\<lparr>assigns := []\<rparr>) = Inr m
          \<and> m_resource_counts m = Map.empty)
   \<and> (\<exists>m. analyze_project_data pf (cost_data\<lparr>assigns := take 1 cost_assignments\<rparr>) = Inr m
          \<and> map (m_resource_counts m) [''Labor'', ''Material'', ''Non-Labor'']
                = [Some 1, None, None])"
proof (intro conjI)
  show "resource_counts lookup [] = Map.empty" by (simp add: resource_counts_def)
  show "dom (resource_counts lookup asg) = resource_class lookup ` set asg"
    by (rule resource_counts_dom)
  show "resource_counts lookup asg k \<noteq> Some 0" by (simp add: resource_counts_value)
  show "\<exists>m. analyze_project_data pf d = Inr m
          \<and> m_resource_counts m = resource_counts (resource_lookup (rsrcs d)) (assigns d)
          \<and> dom (m_activity_counts m) = set activity_names
          \<and> dom (m_relationship_counts m) = set relationship_names"
    by (rule analyze_project_data_total)
  from analyze_project_data_total [of pf "cost_data\<lparr>assigns := []\<rparr>"]
  show "\<exists>m. analyze_project_data pf (cost_data\<lparr>assigns := []\<rparr>) = Inr m
          \<and> m_resource_counts m = Map.empty"
    by (auto simp: resource_counts_def)
  from analyze_project_data_total [of pf "cost_data\<lparr>assigns := take 1 cost_assignments\<rparr>"]
  show "\<exists>m. analyze_project_data pf (cost_data\<lparr>assigns := take 1 cost_assignments\<rparr>) = Inr m
          \<and> map (m_resource_counts m) [''Labor'', ''Material'', ''Non-Labor'']
                = [Some 1, None, None]"
    by (auto simp: resource_counts_def cost_data_def cost_assignments_def cost_resources_def
          resource_lookup_def bump_def resource_class_def lookup_resource_def get_str_def)
qed

text \<open>
  C9, as stated, fails for resources. With two resource records of id R1, the first of
  class Labor and the second of class Material, the lookup built by the dict
  comprehension resolves R1 to the second record, and an assignment to R1 is classed
  Material.
\<close>

theorem duplicate_resource_counterexample:
  "resource_lookup [first_r1, second_r1] ''R1'' = Some second_r1
   \<and> resource_lookup [first_r1, second_r1] ''R1'' \<noteq> Some first_r1
   \<and> resource_class (resource_lookup [first_r1, second_r1]) [''rsrc_id'' \<mapsto> ''R1''] = ''Material''"
proof (intro conjI)
  show l: "resource_lookup [first_r1, second_r1] ''R1'' = Some second_r1"
    by (simp add: resource_lookup_def first_r1_def second_r1_def get_str_def)
  have "first_r1 ''rsrc_type'' \<noteq> second_r1 ''rsrc_type''"
    by (simp add: first_r1_def second_r1_def)
  then have "second_r1 \<noteq> first_r1" by auto
  with l show "resource_lookup [first_r1, second_r1] ''R1'' \<noteq> Some first_r1" by simp
  show "resource_class (resource_lookup [first_r1, second_r1]) [''rsrc_id'' \<mapsto> ''R1''] = ''Material''"
  proof -
    have "second_r1 ''rsrc_type'' = Some ''RT_Mat''" by (simp add: second_r1_def)
    then show ?thesis
      by (simp add: l resource_class_def lookup_resource_def get_str_def)
  qed
qed

text \<open>
  C9, amended. Duplicate ids are not an error, and the two lookups resolve them
  differently. The resource lookup resolves an id to its last record in table order: a
  record with that id after which no record has the id. The activity lookup used for the
  codes of the redundancy report resolves an id to its first record in table order: a
  record with that id before which no record has the id.
\<close>

theorem duplicate_ids_resolution:
  "(get_str r ''rsrc_id'' [] = k \<and> (\<forall>x\<in>set post. get_str x ''rsrc_id'' [] \<noteq> k) \<longrightarrow>
      resource_lookup (pre @ r # post) k = Some r)
   \<and> (get_str a ''task_id'' [] = t \<and> (\<forall>x\<in>set before. get_str x ''task_id'' [] \<noteq> t) \<longrightarrow>
      activity_code (before @ a # after) t = get_str a ''task_code'' t)"
  by (auto intro: resource_lookup_last activity_code_first)

theorem duplicate_ids_resolution_witness:
  "resource_lookup ([first_r1] @ second_r1 # []) ''R1'' = Some second_r1
   \<and> activity_code ([] @ first_t1 # [second_t1]) ''T1'' = ''A1000''"
proof -
  have r: "get_str second_r1 ''rsrc_id'' [] = ''R1'' \<and> (\<forall>x\<in>set []. get_str x ''rsrc_id'' [] \<noteq> ''R1'')"
    by (simp add: second_r1_def get_str_def)
  have t: "get_str first_t1 ''task_id'' [] = ''T1'' \<and> (\<forall>x\<in>set []. get_str x ''task_id'' [] \<noteq> ''T1'')"
    by (simp add: first_t1_def get_str_def)
  have c: "get_str first_t1 ''task_code'' ''T1'' = ''A1000''"
    by (simp add: first_t1_def get_str_def)
  from duplicate_ids_resolution [of second_r1 "''R1''" "[]" "[first_r1]" first_t1 "''T1''" "[]" "[second_t1]"]
    r t c
  show ?thesis by simp
qed

text \<open>
  C4, as stated, fails for the reported total. \<open>total_checked\<close> is incremented for
  every relationship row before the endpoints are tested: on the single row without
  successor id the reported total is 1.
\<close>

theorem dangling_row_counterexample:
  "total_relationships_checked (analyze_redundant_logic float_fragment [] [dangling_rel]) = 1"
  by (simp add: detector_defs dangling_rel_def)

text \<open>
  C4, amended. A relationship row missing its predecessor id or its successor id
  contributes no edge to the graph (the graph is that of the rows with both ids) and is
  never reported as redundant, but it is counted in the reported total of relationships
  checked, which is the number of relationship rows. Independently, the relationship
  histogram counts every row whose type tag (FS when the row has none) is one of the four
  recognized tags, whether or not the row has its ids. The row without successor id of the
  example yields an empty graph and is counted once under Finish-to-Start.
\<close>

theorem dangling_row_tallies:
  "build_graph pf rels = build_graph pf (filter has_endpoints rels)
   \<and> (\<forall>x\<in>set (redundant_relationships (analyze_redundant_logic pf acts rels)).
         predecessor_id x \<noteq> [] \<and> successor_id x \<noteq> [])
   \<and> total_relationships_checked (analyze_redundant_logic pf acts rels) = length rels
   \<and> (\<exists>h. relationship_counts rels = Inr h \<and> dom h = set relationship_names
          \<and> hist_total relationship_names h
               = length (filter (\<lambda>r. map_of XER_REL_MAP (get_str r ''pred_type'' ''PR_FS'') \<noteq> None) rels))
   \<and> build_graph pf [dangling_rel] = Map.empty
   \<and> (\<exists>h. relationship_counts [dangling_rel] = Inr h \<and> h ''Finish-to-Start (FS)'' = Some 1)"
proof (intro conjI)
  show "build_graph pf rels = build_graph pf (filter has_endpoints rels)"
    by (rule build_graph_filter)
  show "\<forall>x\<in>set (redundant_relationships (analyze_redundant_logic pf acts rels)).
         predecessor_id x \<noteq> [] \<and> successor_id x \<noteq> []"
    by (rule flagged_have_endpoints)
  show "total_relationships_checked (analyze_redundant_logic pf acts rels) = length rels"
    by (rule total_checked_all)
  show "\<exists>h. relationship_counts rels = Inr h \<and> dom h = set relationship_names
          \<and> hist_total relationship_names h
               = length (filter (\<lambda>r. map_of XER_REL_MAP (get_str r ''pred_type'' ''PR_FS'') \<noteq> None) rels)"
    by (rule relationship_counts_total)
  show "build_graph pf [dangling_rel] = Map.empty"
    by (simp add: build_graph_def graph_step_def dangling_rel_def get_str_def Let_def)
  show "\<exists>h. relationship_counts [dangling_rel] = Inr h \<and> h ''Finish-to-Start (FS)'' = Some 1"
    by (simp add: metrics_defs dangling_rel_def get_str_def)
qed

theorem dangling_row_tallies_witness:
  "redundant_relationships (analyze_redundant_logic float_fragment [] chain_with_shortcut) \<noteq> []
   \<and> predecessor_id (hd (redundant_relationships
         (analyze_redundant_logic float_fragment [] chain_with_shortcut))) \<noteq> []
   \<and> successor_id (hd (redundant_relationships
         (analyze_redundant_logic float_fragment [] chain_with_shortcut))) \<noteq> []"
proof -
  have ne: "redundant_relationships (analyze_redundant_logic float_fragment [] chain_with_shortcut) \<noteq> []"
    by (simp add: detector_defs chain_with_shortcut_def float_fragment_def)
  then have "hd (redundant_relationships (analyze_redundant_logic float_fragment [] chain_with_shortcut))
      \<in> set (redundant_relationships (analyze_redundant_logic float_fragment [] chain_with_shortcut))"
    by (rule hd_in_set)
  with dangling_row_tallies [of float_fragment chain_with_shortcut "[]"] ne
  show ?thesis by blast
qed

section \<open>Bounds and visiting policy of the search\<close>

lemma trace_found: "found (search_trace g e q v k xs) = search_loop g e q v"
  by (induction g e q v k xs rule: search_trace.induct) simp_all

lemma trace_seen_mono: "fcard v \<le> fcard (seen (search_trace g e q v k xs))"
proof (induction g e q v k xs rule: search_trace.induct)
  case (1 g e v k xs)
  then show ?case by simp
next
  case (2 g e c l p q v k xs)
  have "fcard v \<le> fcard (finsert c v)" by (rule fcard_finsert_le)
  with 2 show ?case by (auto simp del: expand_def split: if_splits intro: order_trans)
qed

lemma trace_seen_cap: "fcard (seen (search_trace g e q v k xs)) \<le> max (fcard v) 1000"
proof (induction g e q v k xs rule: search_trace.induct)
  case (1 g e v k xs)
  then show ?case by simp
next
  case (2 g e c l p q v k xs)
  show ?case
  proof (cases "fcard v < 1000")
    case False
    then show ?thesis by simp
  next
    case True
    then have "max (fcard (finsert c v)) 1000 = 1000" "max (fcard v) 1000 = 1000"
      by (auto simp: fcard_finsert_if)
    with 2 True show ?thesis by (auto split: if_splits)
  qed
qed

lemma trace_explored_length:
  "length (explored (search_trace g e q v k xs)) + fcard v
     = length xs + fcard (seen (search_trace g e q v k xs))"
  by (induction g e q v k xs rule: search_trace.induct)
     (auto simp: fcard_finsert_disjoint)

lemma trace_explored_set:
  "set xs = fset v \<Longrightarrow> distinct xs \<Longrightarrow>
     distinct (explored (search_trace g e q v k xs))
     \<and> set (explored (search_trace g e q v k xs)) = fset (seen (search_trace g e q v k xs))"
  by (induction g e q v k xs rule: search_trace.induct) auto

lemma expand_length: "length (expand g (c, l, p)) \<le> length (neighbors g c)"
  by (simp add: expand_def)

lemma trace_dequeued_bound:
  "\<forall>n. length (neighbors g n) \<le> d \<Longrightarrow>
     dequeued (search_trace g e q v k xs) + d * fcard v
       \<le> k + length q + d * fcard (seen (search_trace g e q v k xs))"
proof (induction g e q v k xs rule: search_trace.induct)
  case (1 g e v k xs)
  then show ?case by simp
next
  case (2 g e c l p q v k xs)
  from "2.prems" have "length (expand g (c, l, p)) \<le> d"
    using expand_length [of g c l p] by (auto intro: order_trans)
  with 2 show ?case
    by (auto simp: fcard_finsert_disjoint simp del: expand_def split: if_splits)
qed

lemma trace_cap: "\<not> fcard v < 1000 \<Longrightarrow> search_loop g e q v = False"
  by (cases q) auto

lemma neighbors_graph_step:
  "length (neighbors (graph_step pf rel g) n) \<le> Suc (length (neighbors g n))"
  by (auto simp: graph_step_def add_edge_def neighbors_def Let_def)

lemma neighbors_fold_le:
  "length (neighbors (fold (graph_step pf) rels g) n) \<le> length (neighbors g n) + length rels"
proof (induction rels arbitrary: g)
  case Nil
  then show ?case by simp
next
  case (Cons rel rels)
  have "length (neighbors (fold (graph_step pf) rels (graph_step pf rel g)) n)
          \<le> length (neighbors (graph_step pf rel g) n) + length rels"
    by (rule Cons.IH)
  with neighbors_graph_step [of pf rel g n] show ?case by simp
qed

lemma neighbors_build_graph: "length (neighbors (build_graph pf rels) n) \<le> length rels"
  using neighbors_fold_le [of pf rels Map.empty n] by (simp add: build_graph_def neighbors_def)

lemma dequeued_build_graph:
  "dequeued (search_trace (build_graph pf rels) e [(s, 0, [])] {||} 0 []) \<le> 1 + 1000 * length rels"
proof -
  define r where "r = search_trace (build_graph pf rels) e [(s, 0, [])] {||} 0 []"
  have "\<forall>n. length (neighbors (build_graph pf rels) n) \<le> length rels"
    by (simp add: neighbors_build_graph)
  from trace_dequeued_bound [OF this, of e "[(s, 0, [])]" "{||}" 0 "[]"]
  have "dequeued r \<le> 1 + length rels * fcard (seen r)"
    unfolding r_def by (simp del: search_trace.simps add: fcard_fempty)
  moreover have "fcard (seen r) \<le> 1000"
    using trace_seen_cap [of "build_graph pf rels" e "[(s, 0, [])]" "{||}" 0 "[]"]
    unfolding r_def by (simp del: search_trace.simps add: fcard_fempty)
  then have "length rels * fcard (seen r) \<le> length rels * 1000" by (rule mult_le_mono2)
  then have "1 + length rels * fcard (seen r) \<le> 1 + 1000 * length rels"
    by (simp only: mult.commute [of "length rels" 1000] add_le_cancel_left)
  ultimately have "dequeued r \<le> 1 + 1000 * length rels" by (rule order_trans)
  then show ?thesis unfolding r_def .
qed


lemma graph_step_rel_row:
  "p \<noteq> [] \<Longrightarrow> s \<noteq> [] \<Longrightarrow>
     graph_step pf (rel_row p s t l) g = add_edge g p (s, t, safe_float pf (PyStr l))"
  by (simp add: graph_step_def rel_row_def get_str_def get_or_zero_def Let_def)

lemma fold_replicate_row:
  assumes "p \<noteq> []" and "s \<noteq> []"
  shows "fold (graph_step pf) (replicate (Suc n) (rel_row p s t l)) g
           = g(p \<mapsto> neighbors g p @ replicate (Suc n) (s, t, safe_float pf (PyStr l)))"
proof (induction n arbitrary: g)
  case 0
  from assms show ?case by (simp add: graph_step_rel_row add_edge_def)
next
  case (Suc n)
  have "fold (graph_step pf) (replicate (Suc (Suc n)) (rel_row p s t l)) g
      = fold (graph_step pf) (replicate (Suc n) (rel_row p s t l))
          (add_edge g p (s, t, safe_float pf (PyStr l)))"
    using assms by (simp add: graph_step_rel_row)
  also have "\<dots> = (add_edge g p (s, t, safe_float pf (PyStr l)))
        (p \<mapsto> neighbors (add_edge g p (s, t, safe_float pf (PyStr l))) p
               @ replicate (Suc n) (s, t, safe_float pf (PyStr l)))"
    by (rule Suc.IH)
  also have "\<dots> = g(p \<mapsto> neighbors g p @ replicate (Suc (Suc n)) (s, t, safe_float pf (PyStr l)))"
    by (simp add: add_edge_def neighbors_def replicate_app_Cons_same)
  finally show ?case .
qed

lemma fan_graph:
  "build_graph float_fragment fan_rels = [''A'' \<mapsto> replicate 1001 (''B'', ''PR_FS'', 0)]"
proof -
  have rels: "fan_rels = replicate (Suc 1000) (rel_row ''A'' ''B'' ''PR_FS'' ''0'')"
    by (simp add: fan_rels_def)
  have "fold (graph_step float_fragment) (replicate (Suc 1000) (rel_row ''A'' ''B'' ''PR_FS'' ''0''))
          Map.empty
      = Map.empty(''A'' \<mapsto> neighbors Map.empty ''A''
          @ replicate (Suc 1000) (''B'', ''PR_FS'', safe_float float_fragment (PyStr ''0'')))"
    by (rule fold_replicate_row) simp_all
  moreover have "safe_float float_fragment (PyStr ''0'') = 0"
    by (simp add: safe_float_def float_fragment_def zero_double_def)
  ultimately show ?thesis
    by (simp add: build_graph_def rels neighbors_def del: replicate_Suc replicate.simps)
qed

lemma skip_replicate:
  "e |\<in>| v \<Longrightarrow> fcard v < 1000 \<Longrightarrow>
     search_trace g e (replicate n (e, l, [a])) v k xs
       = \<lparr>found = False, dequeued = k + n, explored = xs, seen = v\<rparr>"
  by (induction n arbitrary: k) simp_all

lemma fan_dequeues:
  "search_trace (build_graph float_fragment fan_rels) ''B'' [(''A'', 0, [])] {||} 0 []
     = \<lparr>found = False, dequeued = 1002, explored = [''A'', ''B''], seen = {|''B'', ''A''|}\<rparr>"
proof -
  let ?g = "[''A'' \<mapsto> replicate 1001 (''B'', ''PR_FS'', 0::double)]"
  let ?x = "(''B'', 0::double, [''A''])"
  have z: "(0::double) + 0 = 0"
    by (simp add: zero_double_def plus_double_def round64_0)
  have e1: "expand ?g (''A'', 0, []) = replicate 1001 ?x"
    by (simp add: expand_def neighbors_def z)
  have e2: "expand ?g (''B'', 0, [''A'']) = []"
    by (simp add: expand_def neighbors_def)
  have r: "replicate 1001 ?x = ?x # replicate 1000 ?x"
    using replicate_Suc [of 1000 ?x] by simp
  have "search_trace ?g ''B'' [(''A'', 0, [])] {||} 0 []
      = search_trace ?g ''B'' (replicate 1001 ?x) {|''A''|} (Suc 0) [''A'']"
    by (simp add: e1 fcard_fempty del: expand_def)
  also have "\<dots> = search_trace ?g ''B'' (?x # replicate 1000 ?x) {|''A''|} (Suc 0) [''A'']"
    by (simp only: r)
  also have "\<dots> = search_trace ?g ''B'' (replicate 1000 ?x) {|''B'', ''A''|} (Suc (Suc 0)) [''A'', ''B'']"
    by (simp add: e2 fcard_finsert_if fcard_fempty del: expand_def)
  also have "\<dots> = \<lparr>found = False, dequeued = Suc (Suc 0) + 1000, explored = [''A'', ''B''], seen = {|''B'', ''A''|}\<rparr>"
    by (rule skip_replicate) (simp_all add: fcard_finsert_if fcard_fempty)
  finally show ?thesis by (simp add: fan_graph)
qed

lemma thousand_nodes_card: "fcard thousand_nodes = 1000"
proof -
  have "inj_on (\<lambda>n. replicate n (CHR ''x'')) {0..<1000}"
    by (rule inj_onI) (metis length_replicate)
  then have "card ((\<lambda>n. replicate n (CHR ''x'')) ` {0..<1000}) = 1000"
    by (simp add: card_image)
  then show ?thesis
    by (simp add: thousand_nodes_def fcard.rep_eq fset_of_list.rep_eq)
qed

lemma cycle_eval:
  "redundant_relationships (analyze_redundant_logic pf acts two_cycle) = []"
  by (simp add: detector_defs two_cycle_def)

lemma detour_eval:
  "search_trace (build_graph float_fragment detour_rels) ''E'' [(''S'', 0, [])] {||} 0 []
    = \<lparr>found = False, dequeued = 7, explored = [''S'', ''E'', ''Z'', ''X'', ''W'', ''Y''],
        seen = {|''Y'', ''W'', ''X'', ''Z'', ''E'', ''S''|}\<rparr>"
  by (simp add: detector_defs detour_rels_def float_fragment_def)

lemma detour_walk:
  "walk (build_graph float_fragment detour_rels) [''S'', ''Z'', ''W'', ''X'', ''Y'', ''E'']"
  by (simp add: detector_defs detour_rels_def float_fragment_def is_edge_def)


text \<open>
  What C2 says of termination holds on every input. The loop is defined by recursion
  with a termination proof on every graph whose adjacency lists are lists, cyclic or
  not: each iteration either adds a node to the visited set, which has fewer than 1000
  elements while the loop runs, or shortens the queue. The instrumented loop answers as
  \<open>has_alternate_path\<close> does. Across one search at most 1000 distinct nodes are
  explored, as many as the visited set has elements, and on the graph of a relationship
  list the number of dequeued entries is at most 1 + 1000 times the number of
  relationships. Once the visited set has 1000 elements the loop stops and answers that
  no alternate path was found, whatever is left in the queue. On the two relationships
  A\<rightarrow>B and B\<rightarrow>A the detector reports no redundant relationship and has checked both.
\<close>

theorem search_terminates_within_bounds:
  "found (search_trace g e [(s, 0, [])] {||} 0 []) = has_alternate_path g s e direct_rel
   \<and> fcard (seen (search_trace g e [(s, 0, [])] {||} 0 [])) \<le> 1000
   \<and> length (explored (search_trace g e [(s, 0, [])] {||} 0 []))
        = fcard (seen (search_trace g e [(s, 0, [])] {||} 0 []))
   \<and> dequeued (search_trace (build_graph pf rels) e [(s, 0, [])] {||} 0 [])
        \<le> 1 + 1000 * length rels
   \<and> (\<not> fcard visited < 1000 \<longrightarrow> search_loop g e queue visited = False)
   \<and> redundant_relationships (analyze_redundant_logic pf acts two_cycle) = []
   \<and> total_relationships_checked (analyze_redundant_logic pf acts two_cycle) = 2"
proof (intro conjI impI)
  show "found (search_trace g e [(s, 0, [])] {||} 0 []) = has_alternate_path g s e direct_rel"
    unfolding has_alternate_path_def by (rule trace_found)
  show "fcard (seen (search_trace g e [(s, 0, [])] {||} 0 [])) \<le> 1000"
    using trace_seen_cap [of g e "[(s, 0, [])]" "{||}" 0 "[]"]
    by (simp del: search_trace.simps add: fcard_fempty)
  show "length (explored (search_trace g e [(s, 0, [])] {||} 0 []))
        = fcard (seen (search_trace g e [(s, 0, [])] {||} 0 []))"
    using trace_explored_length [of g e "[(s, 0, [])]" "{||}" 0 "[]"]
    by (simp del: search_trace.simps add: fcard_fempty)
  show "dequeued (search_trace (build_graph pf rels) e [(s, 0, [])] {||} 0 [])
        \<le> 1 + 1000 * length rels"
    by (rule dequeued_build_graph)
  show "search_loop g e queue visited = False" if "\<not> fcard visited < 1000"
    using that by (rule trace_cap)
  show "redundant_relationships (analyze_redundant_logic pf acts two_cycle) = []"
    by (rule cycle_eval)
  show "total_relationships_checked (analyze_redundant_logic pf acts two_cycle) = 2"
    by (simp add: total_checked_all two_cycle_def)
qed

theorem search_terminates_within_bounds_witness:
  "\<not> fcard thousand_nodes < 1000
   \<and> search_loop Map.empty ''E'' [(''E'', 0, [''S'', ''M''])] thousand_nodes = False
   \<and> search_loop Map.empty ''E'' [(''E'', 0, [''S'', ''M''])] {||} = True"
proof -
  have h: "\<not> fcard thousand_nodes < 1000" by (simp add: thousand_nodes_card)
  have t: "search_loop Map.empty ''E'' [(''E'', 0, [''S'', ''M''])] {||} = True"
    by (simp add: fcard_fempty)
  from search_terminates_within_bounds
         [where visited = thousand_nodes and g = Map.empty and e = "''E''"
            and queue = "[(''E'', 0, [''S'', ''M''])]"] h t
  show ?thesis by blast
qed

text \<open>
  C2. The cap of 1000 on the entries dequeued in one search, which the comment on the
  loop guard also states (it limits the iterations), is not what the guard tests: it
  bounds the size of the visited set. With 1001 copies of the relationship A\<rightarrow>B the
  search for A\<rightarrow>B dequeues 1002 entries and answers no, while only the two nodes A and B
  are ever visited.
\<close>

theorem iteration_limit_exceeded:
  "length fan_rels = 1001
   \<and> search_trace (build_graph float_fragment fan_rels) ''B'' [(''A'', 0, [])] {||} 0 []
       = \<lparr>found = False, dequeued = 1002, explored = [''A'', ''B''], seen = {|''B'', ''A''|}\<rparr>
   \<and> has_alternate_path (build_graph float_fragment fan_rels) ''A'' ''B'' (''PR_FS'', 0) = False"
proof (intro conjI)
  show "length fan_rels = 1001" by (simp add: fan_rels_def)
  show t: "search_trace (build_graph float_fragment fan_rels) ''B'' [(''A'', 0, [])] {||} 0 []
       = \<lparr>found = False, dequeued = 1002, explored = [''A'', ''B''], seen = {|''B'', ''A''|}\<rparr>"
    by (rule fan_dequeues)
  have "has_alternate_path (build_graph float_fragment fan_rels) ''A'' ''B'' (''PR_FS'', 0)
      = found (search_trace (build_graph float_fragment fan_rels) ''B'' [(''A'', 0, [])] {||} 0 [])"
    unfolding has_alternate_path_def by (rule trace_found [symmetric])
  then show "has_alternate_path (build_graph float_fragment fan_rels) ''A'' ''B'' (''PR_FS'', 0) = False"
    by (simp only: t search_log.simps)
qed

text \<open>
  C3, as stated, fails: the search keeps a visited set across all branches. In the
  detour graph the search for S\<rightarrow>E reaches X first on the branch through E, explores it
  there, and skips it when it is dequeued again from the branch S\<rightarrow>Z\<rightarrow>W, whose path does
  not contain X. Seven entries are dequeued, six nodes are explored, X once, and the
  search answers no although S\<rightarrow>Z\<rightarrow>W\<rightarrow>X\<rightarrow>Y\<rightarrow>E is a path of five edges without repeated
  node.
\<close>

theorem revisit_counterexample:
  "\<not> has_alternate_path (build_graph float_fragment detour_rels) ''S'' ''E'' (''PR_FS'', 0)
   \<and> walk (build_graph float_fragment detour_rels) [''S'', ''Z'', ''W'', ''X'', ''Y'', ''E'']
   \<and> distinct [''S'', ''Z'', ''W'', ''X'', ''Y'', ''E'']
   \<and> explored (search_trace (build_graph float_fragment detour_rels) ''E'' [(''S'', 0, [])] {||} 0 [])
       = [''S'', ''E'', ''Z'', ''X'', ''W'', ''Y'']
   \<and> dequeued (search_trace (build_graph float_fragment detour_rels) ''E'' [(''S'', 0, [])] {||} 0 [])
       = 7"
proof (intro conjI)
  have "has_alternate_path (build_graph float_fragment detour_rels) ''S'' ''E'' (''PR_FS'', 0)
      = found (search_trace (build_graph float_fragment detour_rels) ''E'' [(''S'', 0, [])] {||} 0 [])"
    unfolding has_alternate_path_def by (rule trace_found [symmetric])
  then show "\<not> has_alternate_path (build_graph float_fragment detour_rels) ''S'' ''E'' (''PR_FS'', 0)"
    by (simp only: detour_eval search_log.simps simp_thms)
  show "walk (build_graph float_fragment detour_rels) [''S'', ''Z'', ''W'', ''X'', ''Y'', ''E'']"
    by (rule detour_walk)
  show "distinct [''S'', ''Z'', ''W'', ''X'', ''Y'', ''E'']" by simp
  show "explored (search_trace (build_graph float_fragment detour_rels) ''E'' [(''S'', 0, [])] {||} 0 [])
       = [''S'', ''E'', ''Z'', ''X'', ''W'', ''Y'']"
    by (simp only: detour_eval search_log.simps)
  show "dequeued (search_trace (build_graph float_fragment detour_rels) ''E'' [(''S'', 0, [])] {||} 0 [])
       = 7"
    by (simp only: detour_eval search_log.simps)
qed

text \<open>
  C3, amended. During one edge's search two exclusions apply. A neighbour already on the
  current path is not enqueued: every entry appended for a node carries the path extended
  by that node and a neighbour outside the old path. And a visited set is shared by all
  branches: a dequeued node that is already visited is skipped, whatever its path, so no
  node is explored twice in one search and the nodes explored are exactly the visited
  set. Only the test for the successor comes before the visited test: an entry for the
  successor with a path of at least two nodes (and at most ten) ends the search with yes
  even when the successor is already visited.
\<close>

theorem visited_nodes_explored_once:
  "distinct (explored (search_trace g e [(s, 0, [])] {||} 0 []))
   \<and> set (explored (search_trace g e [(s, 0, [])] {||} 0 []))
       = fset (seen (search_trace g e [(s, 0, [])] {||} 0 []))
   \<and> (c |\<in>| v \<and> \<not> (c = e \<and> 1 < length p) \<longrightarrow>
         search_loop g e ((c, l, p) # q) v = search_loop g e q v)
   \<and> (\<forall>ent\<in>set (expand g (c, l, p)). fst ent \<notin> set p \<and> snd (snd ent) = p @ [c])
   \<and> (c' = e \<and> 1 < length p' \<and> length p' \<le> 10 \<and> fcard v' < 1000 \<longrightarrow>
         search_loop g e ((c', l', p') # q') v')"
proof (intro conjI impI)
  have "distinct (explored (search_trace g e [(s, 0, [])] {||} 0 []))
     \<and> set (explored (search_trace g e [(s, 0, [])] {||} 0 []))
         = fset (seen (search_trace g e [(s, 0, [])] {||} 0 []))"
    by (rule trace_explored_set) simp_all
  then show "distinct (explored (search_trace g e [(s, 0, [])] {||} 0 []))"
    and "set (explored (search_trace g e [(s, 0, [])] {||} 0 []))
       = fset (seen (search_trace g e [(s, 0, [])] {||} 0 []))"
    by blast+
  show "search_loop g e ((c, l, p) # q) v = search_loop g e q v"
    if "c |\<in>| v \<and> \<not> (c = e \<and> 1 < length p)"
  proof (cases "fcard v < 1000")
    case True
    with that show ?thesis by auto
  next
    case False
    then show ?thesis by (simp add: trace_cap)
  qed
  show "\<forall>ent\<in>set (expand g (c, l, p)). fst ent \<notin> set p \<and> snd (snd ent) = p @ [c]"
    by (auto simp: expand_def)
  show "search_loop g e ((c', l', p') # q') v'"
    if "c' = e \<and> 1 < length p' \<and> length p' \<le> 10 \<and> fcard v' < 1000"
    using that by simp
qed

theorem visited_nodes_explored_once_witness:
  "search_loop (build_graph float_fragment detour_rels) ''E'' [(''X'', 0, [''S'', ''Z'', ''W''])]
       {|''Y'', ''W'', ''X'', ''Z'', ''E'', ''S''|} = False
   \<and> expand (build_graph float_fragment detour_rels) (''X'', 0, [''S'', ''E''])
       = [(''Y'', 0, [''S'', ''E'', ''X''])]
   \<and> search_loop (build_graph float_fragment detour_rels) ''E'' [(''E'', 0, [''S'', ''M''])]
       {|''E'', ''S''|}"
proof -
  let ?g = "build_graph float_fragment detour_rels"
  have h1: "''X'' |\<in>| {|''Y'', ''W'', ''X'', ''Z'', ''E'', ''S''|}
            \<and> \<not> (''X'' = ''E'' \<and> 1 < length [''S'', ''Z'', ''W''])" by simp
  have h2: "''E'' = ''E'' \<and> 1 < length [''S'', ''M''] \<and> length [''S'', ''M''] \<le> 10
            \<and> fcard {|''E'', ''S''|} < 1000"
    by (simp add: fcard_finsert_if fcard_fempty)
  have ex: "expand ?g (''X'', 0, [''S'', ''E'']) = [(''Y'', 0, [''S'', ''E'', ''X''])]"
    by (simp add: detector_defs detour_rels_def float_fragment_def)
  note t = visited_nodes_explored_once
         [where g = ?g and e = "''E''" and c = "''X''" and l = 0 and p = "[''S'', ''Z'', ''W'']"
            and q = "[]" and v = "{|''Y'', ''W'', ''X'', ''Z'', ''E'', ''S''|}"
            and c' = "''E''" and l' = 0 and p' = "[''S'', ''M'']" and q' = "[]"
            and v' = "{|''E'', ''S''|}"]
  from t h1 have "search_loop ?g ''E'' [(''X'', 0, [''S'', ''Z'', ''W''])]
       {|''Y'', ''W'', ''X'', ''Z'', ''E'', ''S''|} = search_loop ?g ''E'' [] {|''Y'', ''W'', ''X'', ''Z'', ''E'', ''S''|}"
    by blast
  then have a: "search_loop ?g ''E'' [(''X'', 0, [''S'', ''Z'', ''W''])]
       {|''Y'', ''W'', ''X'', ''Z'', ''E'', ''S''|} = False" by (simp only: search_loop.simps)
  from t h2 have b: "search_loop ?g ''E'' [(''E'', 0, [''S'', ''M''])] {|''E'', ''S''|}" by blast
  from a ex b show ?thesis by blast
qed

end
